theory Spec2Isabelle
  imports Complex_Main "HOL-Library.Multiset"
begin

section \<open>The flow editor of the agent builder (Flow.tsx)\<close>

text \<open>
  The component keeps a graph of nodes and edges, a counter for node ids, a clipboard, the
  positions recorded at drag start and a history of reversible operations. The handlers of
  the component are translated one by one; each takes the state it reads and returns the
  state it leaves. React applies the queued updates of one handler in the order the handler
  issues them, and the translation applies them in that order. A coordinate is a real
  number (every finite double is one) and the node-id counter is a natural number. Where a
  decision of the code depends on how double-precision arithmetic rounds (the distance of
  a drag), the arithmetic is a parameter.
\<close>

subsection \<open>Rendering values into strings\<close>

definition digit_char :: "nat \<Rightarrow> char" where
  "digit_char d = ''0123456789'' ! d"

text \<open>\<open>Number.prototype.toString\<close> on a non-negative integer: its decimal digits.\<close>

function toString :: "nat \<Rightarrow> string" where
  "toString n = (if n < 10 then [digit_char n] else toString (n div 10) @ [digit_char (n mod 10)])"
  by pat_completeness auto
termination
  by (relation "measure id") auto

declare toString.simps [simp del]

text \<open>A template literal renders \<open>null\<close> as the four letters.\<close>

definition tmpl :: "string option \<Rightarrow> string" where
  "tmpl v = (case v of None \<Rightarrow> ''null'' | Some s \<Rightarrow> s)"

subsection \<open>Nodes, edges, connections\<close>

datatype json = JNull | JBool bool | JNum int | JStr string | JArr "json list" | JObj "(string \<times> json) list"

record position =
  pos_x :: real
  pos_y :: real

record node_connection =
  nc_edge_id :: string
  nc_source :: string
  nc_target :: string
  nc_sourceHandle :: "string option"
  nc_targetHandle :: "string option"

record custom_node_data =
  blockType :: string
  title :: string
  description :: string
  categories :: "json list"
  inputSchema :: json
  outputSchema :: json
  hardcodedValues :: "(string \<times> json) list"
  connections :: "node_connection list"
  isOutputOpen :: bool
  block_id :: string
  isOutputStatic :: bool
  status :: "string option"
  output_data :: "json option"

record custom_node =
  n_id :: string
  n_type :: string
  n_position :: position
  n_data :: custom_node_data
  n_selected :: bool

record marker =
  m_type :: string
  strokeWidth :: nat
  color :: string

record custom_edge_data =
  edgeColor :: string
  sourcePos :: position
  isStatic :: bool

record custom_edge =
  e_id :: string
  e_type :: string
  e_markerEnd :: marker
  e_data :: custom_edge_data
  e_source :: string
  e_target :: string
  e_sourceHandle :: "string option"
  e_targetHandle :: "string option"
  e_selected :: bool

text \<open>The library's \<open>Connection\<close> and the server API's \<open>Link\<close>.\<close>

record connection =
  source :: string
  sourceHandle :: "string option"
  target :: string
  targetHandle :: "string option"

record link =
  source_id :: string
  source_name :: string
  sink_id :: string
  sink_name :: string

text \<open>An entry of \<open>availableNodes\<close>: the schema of one block.\<close>

record block_schema =
  sch_id :: string
  sch_description :: string
  sch_categories :: "json list"
  sch_inputSchema :: json
  sch_outputSchema :: json
  sch_staticOutput :: bool

text \<open>
  The graph as the component holds it: the \<open>nodes\<close> and \<open>edges\<close> arrays, and the value of
  \<open>edges\<close> that the memoised \<open>onNodesChange\<close> closes over. \<open>useCallback\<close> rebuilds that
  handler only when \<open>deleteElements\<close> or \<open>setNodes\<close> change (its dependency list, line 210),
  so the \<open>edges\<close> it reads are those of the render that built it, not the current ones.
\<close>

record flow =
  nodes :: "custom_node list"
  edges :: "custom_edge list"
  closure_edges :: "custom_edge list"

subsection \<open>Changes and how the library applies them\<close>

datatype node_change =
    NodeAdd custom_node
  | NodeRemove string
  | NodeReplace string custom_node
  | NodeSelect string bool
  | NodePosition string position

datatype edge_change =
    EdgeAdd custom_edge
  | EdgeRemove string
  | EdgeReplace string custom_edge
  | EdgeSelect string bool

text \<open>
  \<open>applyNodeChanges\<close> and \<open>applyEdgeChanges\<close> belong to the graph library
  (@xyflow/react), which is outside the repository. They are modelled by the library's
  documented contract: the changes aimed at an element are collected in order, a remove or
  a replace starting the collection afresh; an element whose collection starts with a
  remove is dropped, one whose collection starts with a replace becomes the given item,
  any other element has its select and position changes applied; added items go to the end.
\<close>

fun node_changes_for :: "string \<Rightarrow> node_change list \<Rightarrow> node_change list \<Rightarrow> node_change list" where
  "node_changes_for i acc [] = acc"
| "node_changes_for i acc (NodeAdd n # cs) = node_changes_for i acc cs"
| "node_changes_for i acc (NodeRemove j # cs) =
     node_changes_for i (if j = i then [NodeRemove j] else acc) cs"
| "node_changes_for i acc (NodeReplace j n # cs) =
     node_changes_for i (if j = i then [NodeReplace j n] else acc) cs"
| "node_changes_for i acc (NodeSelect j b # cs) =
     node_changes_for i (if j = i then acc @ [NodeSelect j b] else acc) cs"
| "node_changes_for i acc (NodePosition j p # cs) =
     node_changes_for i (if j = i then acc @ [NodePosition j p] else acc) cs"

fun applyNodeChange :: "node_change \<Rightarrow> custom_node \<Rightarrow> custom_node" where
  "applyNodeChange (NodeSelect j b) n = n\<lparr>n_selected := b\<rparr>"
| "applyNodeChange (NodePosition j p) n = n\<lparr>n_position := p\<rparr>"
| "applyNodeChange c n = n"

fun changed_node :: "node_change list \<Rightarrow> custom_node \<Rightarrow> custom_node list" where
  "changed_node [] n = [n]"
| "changed_node (NodeRemove j # cs) n = []"
| "changed_node (NodeReplace j item # cs) n = [item]"
| "changed_node cs n = [fold applyNodeChange cs n]"

fun added_nodes :: "node_change list \<Rightarrow> custom_node list" where
  "added_nodes [] = []"
| "added_nodes (NodeAdd n # cs) = n # added_nodes cs"
| "added_nodes (c # cs) = added_nodes cs"

definition applyNodeChanges :: "node_change list \<Rightarrow> custom_node list \<Rightarrow> custom_node list" where
  "applyNodeChanges changes elements =
     concat (map (\<lambda>n. changed_node (node_changes_for (n_id n) [] changes) n) elements)
       @ added_nodes changes"

fun edge_changes_for :: "string \<Rightarrow> edge_change list \<Rightarrow> edge_change list \<Rightarrow> edge_change list" where
  "edge_changes_for i acc [] = acc"
| "edge_changes_for i acc (EdgeAdd e # cs) = edge_changes_for i acc cs"
| "edge_changes_for i acc (EdgeRemove j # cs) =
     edge_changes_for i (if j = i then [EdgeRemove j] else acc) cs"
| "edge_changes_for i acc (EdgeReplace j e # cs) =
     edge_changes_for i (if j = i then [EdgeReplace j e] else acc) cs"
| "edge_changes_for i acc (EdgeSelect j b # cs) =
     edge_changes_for i (if j = i then acc @ [EdgeSelect j b] else acc) cs"

fun applyEdgeChange :: "edge_change \<Rightarrow> custom_edge \<Rightarrow> custom_edge" where
  "applyEdgeChange (EdgeSelect j b) e = e\<lparr>e_selected := b\<rparr>"
| "applyEdgeChange c e = e"

fun changed_edge :: "edge_change list \<Rightarrow> custom_edge \<Rightarrow> custom_edge list" where
  "changed_edge [] e = [e]"
| "changed_edge (EdgeRemove j # cs) e = []"
| "changed_edge (EdgeReplace j item # cs) e = [item]"
| "changed_edge cs e = [fold applyEdgeChange cs e]"

fun added_edges :: "edge_change list \<Rightarrow> custom_edge list" where
  "added_edges [] = []"
| "added_edges (EdgeAdd e # cs) = e # added_edges cs"
| "added_edges (c # cs) = added_edges cs"

definition applyEdgeChanges :: "edge_change list \<Rightarrow> custom_edge list \<Rightarrow> custom_edge list" where
  "applyEdgeChanges changes elements =
     concat (map (\<lambda>e. changed_edge (edge_changes_for (e_id e) [] changes) e) elements)
       @ added_edges changes"

subsection \<open>The handlers that act on the graph\<close>

text \<open>\<open>clearNodesStatusAndOutput\<close> (lines 175-189).\<close>

definition clearNodesStatusAndOutput :: "flow \<Rightarrow> flow" where
  "clearNodesStatusAndOutput g =
     g\<lparr>nodes := map (\<lambda>node. node\<lparr>n_data := (n_data node)
           \<lparr>status := None, output_data := None, isOutputOpen := False\<rparr>\<rparr>) (nodes g)\<rparr>"

fun removed_edge_ids :: "edge_change list \<Rightarrow> string list" where
  "removed_edge_ids [] = []"
| "removed_edge_ids (EdgeRemove j # cs) = j # removed_edge_ids cs"
| "removed_edge_ids (c # cs) = removed_edge_ids cs"

fun replace_edges :: "edge_change list \<Rightarrow> custom_edge list" where
  "replace_edges [] = []"
| "replace_edges (EdgeReplace j e # cs) = e # replace_edges cs"
| "replace_edges (c # cs) = replace_edges cs"

definition connection_of :: "custom_edge \<Rightarrow> node_connection" where
  "connection_of item =
     \<lparr>nc_edge_id = e_id item, nc_source = e_source item, nc_target = e_target item,
      nc_sourceHandle = e_sourceHandle item, nc_targetHandle = e_targetHandle item\<rparr>"

text \<open>\<open>onEdgesChange\<close> (lines 261-338).\<close>

definition onEdgesChange :: "edge_change list \<Rightarrow> flow \<Rightarrow> flow" where
  "onEdgesChange edgeChanges g =
    (let g1 = g\<lparr>edges := applyEdgeChanges edgeChanges (edges g)\<rparr>;
         addedEdges = added_edges edgeChanges;
         replaceEdges = replace_edges edgeChanges;
         removedEdges = removed_edge_ids edgeChanges;
         g2 = (if addedEdges \<noteq> [] \<or> removedEdges \<noteq> [] then
                 (let g' = g1\<lparr>nodes := map (\<lambda>node. node\<lparr>n_data := (n_data node)
                            \<lparr>connections :=
                               filter (\<lambda>conn. \<not> list_ex (\<lambda>removedEdge. removedEdge = nc_edge_id conn) removedEdges)
                                 (connections (n_data node))
                               @ map connection_of addedEdges\<rparr>\<rparr>) (nodes g1)\<rparr>
                  in if removedEdges \<noteq> [] then clearNodesStatusAndOutput g' else g')
               else g1)
     in if replaceEdges \<noteq> [] then
          clearNodesStatusAndOutput
            (g2\<lparr>nodes := map (\<lambda>node. node\<lparr>n_data := (n_data node)
                   \<lparr>connections := map connection_of replaceEdges\<rparr>\<rparr>) (nodes g2)\<rparr>)
        else g2)"

text \<open>
  The instance functions \<open>addEdges\<close>, \<open>addNodes\<close>, \<open>deleteElements\<close>, \<open>updateNode\<close> and
  \<open>getNode\<close> of the graph library are outside the repository. The component runs the
  library as a controlled flow (it passes \<open>nodes\<close>, \<open>edges\<close>, \<open>onNodesChange\<close>,
  \<open>onEdgesChange\<close> and \<open>onNodesDelete\<close>, lines 515-523), where by the library's documented
  contract each instance function reports its effect as changes to the registered
  handler: \<open>addEdges\<close> and \<open>addNodes\<close> report an element whose id is not in the graph
  as an add change and an element whose id is in use as a replace change of that id,
  \<open>updateNode\<close> reports replace changes of the nodes with the given id,
  \<open>deleteElements\<close> remove changes of the matching elements and of the edges connected
  to a matching node, calling \<open>onNodesDelete\<close> when a node matched.
\<close>

text \<open>\<open>addEdges\<close> on edges whose ids are all new to the graph: add changes only.\<close>

definition addEdges :: "custom_edge list \<Rightarrow> flow \<Rightarrow> flow" where
  "addEdges payload g = onEdgesChange (map EdgeAdd payload) g"

text \<open>
  \<open>addEdges\<close> on any edges. (The library reports nothing for an item that is the very
  object the graph holds; the graph holds copies of what was added, so an edge the
  component has just built is never that object.)
\<close>

definition reported_edge_changes :: "custom_edge list \<Rightarrow> custom_edge list \<Rightarrow> edge_change list" where
  "reported_edge_changes payload stored =
     map (\<lambda>item. if list_ex (\<lambda>e. e_id e = e_id item) stored then EdgeReplace (e_id item) item
                 else EdgeAdd item) payload"

definition instance_addEdges :: "custom_edge list \<Rightarrow> flow \<Rightarrow> flow" where
  "instance_addEdges payload g = onEdgesChange (reported_edge_changes payload (edges g)) g"

text \<open>The call \<open>deleteElements({ edges: [...] })\<close>, given the ids.\<close>

definition deleteElements_edges :: "string list \<Rightarrow> flow \<Rightarrow> flow" where
  "deleteElements_edges ids g =
    (let matchingEdges = filter (\<lambda>e. e_id e \<in> set ids) (edges g)
     in if matchingEdges \<noteq> [] then onEdgesChange (map (\<lambda>e. EdgeRemove (e_id e)) matchingEdges) g
        else g)"

fun removed_node_ids :: "node_change list \<Rightarrow> string list" where
  "removed_node_ids [] = []"
| "removed_node_ids (NodeRemove j # cs) = j # removed_node_ids cs"
| "removed_node_ids (c # cs) = removed_node_ids cs"

text \<open>
  \<open>onNodesChange\<close> (lines 191-211). The \<open>edges\<close> it filters are the ones its closure
  holds.
\<close>

definition onNodesChange :: "node_change list \<Rightarrow> flow \<Rightarrow> flow" where
  "onNodesChange nodeChanges g =
     fold (\<lambda>nodeID g'.
             (let connectedEdges =
                    filter (\<lambda>edge. nodeID \<in> set [e_source edge, e_target edge]) (closure_edges g')
              in deleteElements_edges (map e_id connectedEdges) g'))
          (removed_node_ids nodeChanges)
          (g\<lparr>nodes := applyNodeChanges nodeChanges (nodes g)\<rparr>)"

text \<open>\<open>onNodesDelete\<close> (lines 489-491).\<close>

definition onNodesDelete :: "flow \<Rightarrow> flow" where
  "onNodesDelete g = clearNodesStatusAndOutput g"

text \<open>\<open>addNodes\<close> on nodes whose ids are all new to the graph, and on any nodes.\<close>

definition addNodes :: "custom_node list \<Rightarrow> flow \<Rightarrow> flow" where
  "addNodes payload g = onNodesChange (map NodeAdd payload) g"

definition reported_node_changes :: "custom_node list \<Rightarrow> custom_node list \<Rightarrow> node_change list" where
  "reported_node_changes payload stored =
     map (\<lambda>item. if list_ex (\<lambda>n. n_id n = n_id item) stored then NodeReplace (n_id item) item
                 else NodeAdd item) payload"

definition instance_addNodes :: "custom_node list \<Rightarrow> flow \<Rightarrow> flow" where
  "instance_addNodes payload g = onNodesChange (reported_node_changes payload (nodes g)) g"

text \<open>The call \<open>deleteElements({ nodes: [...] })\<close>, given the ids.\<close>

definition deleteElements_nodes :: "string list \<Rightarrow> flow \<Rightarrow> flow" where
  "deleteElements_nodes ids g =
    (let matchingNodes = filter (\<lambda>n. n_id n \<in> set ids) (nodes g);
         matchingIds = map n_id matchingNodes;
         matchingEdges = filter (\<lambda>e. e_source e \<in> set matchingIds \<or> e_target e \<in> set matchingIds) (edges g);
         g1 = (if matchingEdges \<noteq> [] then onEdgesChange (map (\<lambda>e. EdgeRemove (e_id e)) matchingEdges) g
               else g)
     in if matchingNodes \<noteq> [] then
          onNodesChange (map (\<lambda>n. NodeRemove (n_id n)) matchingNodes) (onNodesDelete g1)
        else g1)"

text \<open>
  The call \<open>deleteElements({ nodes: [...], edges: [...] })\<close> in general, which the library
  itself makes for the delete keys (line 526) with the selected elements. The edges that
  match or are connected to a matching node are reported first; then \<open>onNodesDelete\<close>
  is called and the matching nodes are reported.
\<close>

definition deleteElements :: "string list \<Rightarrow> string list \<Rightarrow> flow \<Rightarrow> flow" where
  "deleteElements nodeIds edgeIds g =
    (let matchingNodes = filter (\<lambda>n. n_id n \<in> set nodeIds) (nodes g);
         matchingIds = map n_id matchingNodes;
         matchingEdges = filter (\<lambda>e. e_id e \<in> set edgeIds
                                      \<or> e_source e \<in> set matchingIds \<or> e_target e \<in> set matchingIds) (edges g);
         g1 = (if matchingEdges \<noteq> [] then onEdgesChange (map (\<lambda>e. EdgeRemove (e_id e)) matchingEdges) g
               else g)
     in if matchingNodes \<noteq> [] then
          onNodesChange (map (\<lambda>n. NodeRemove (n_id n)) matchingNodes) (onNodesDelete g1)
        else g1)"

text \<open>The call \<open>updateNode(id, { position })\<close>.\<close>

definition updateNode_position :: "string \<Rightarrow> position \<Rightarrow> flow \<Rightarrow> flow" where
  "updateNode_position i p g =
     onNodesChange
       (map (\<lambda>n. NodeReplace (n_id n) (n\<lparr>n_position := p\<rparr>)) (filter (\<lambda>n. n_id n = i) (nodes g))) g"

definition getNode :: "string \<Rightarrow> flow \<Rightarrow> custom_node option" where
  "getNode i g = find (\<lambda>n. n_id n = i) (nodes g)"

text \<open>\<open>formatEdgeID\<close> (lines 213-219); a \<open>Link\<close> is the argument that has a \<open>sink_id\<close>.\<close>

definition formatEdgeID :: "link + connection \<Rightarrow> string" where
  "formatEdgeID conn =
    (case conn of
       Inl l \<Rightarrow> source_id l @ ''_'' @ source_name l @ ''_'' @ sink_id l @ ''_'' @ sink_name l
     | Inr c \<Rightarrow> source c @ ''_'' @ tmpl (sourceHandle c) @ ''_'' @ target c @ ''_'' @ tmpl (targetHandle c))"

subsection \<open>The history\<close>

text \<open>An entry as the component builds it: type, payload and the two closures.\<close>

datatype payload =
    AddNodePayload custom_node_data
  | AddEdgePayload custom_edge
  | UpdateNodePositionPayload string position position

record action =
  a_type :: string
  a_payload :: payload
  undo :: "flow \<Rightarrow> flow"
  redo :: "flow \<Rightarrow> flow"

text \<open>
  Modelled from the spec: the module \<open>./history\<close> (imported at line 31) is not among the
  sources. The glossary describes it as "an in-memory undo/redo stack of reversible
  graph-editing operations", read here as the usual pair of stacks: the entries that can
  be undone, newest last, and the entries that were undone and can be redone, newest last.
  \<open>push\<close> records a new entry and empties the redoable ones; \<open>undo\<close> takes the newest
  undoable entry, runs its \<open>undo\<close> and makes it redoable; \<open>redo\<close> takes the newest redoable
  entry, runs its \<open>redo\<close> and makes it undoable again. With nothing to take, neither does
  anything.
\<close>

record history_stack =
  past :: "action list"
  future :: "action list"

text \<open>Modelled from the spec: \<open>history.push\<close> of the missing module, a push onto the undo
  stack that empties the redo stack.\<close>

definition push :: "action \<Rightarrow> history_stack \<Rightarrow> history_stack" where
  "push a h = \<lparr>past = past h @ [a], future = []\<rparr>"

text \<open>Modelled from the spec: \<open>history.undo\<close> of the missing module.\<close>

definition history_undo :: "history_stack \<Rightarrow> flow \<Rightarrow> history_stack \<times> flow" where
  "history_undo h g =
    (case rev (past h) of
       [] \<Rightarrow> (h, g)
     | a # older \<Rightarrow> (\<lparr>past = rev older, future = future h @ [a]\<rparr>, undo a g))"

text \<open>Modelled from the spec: \<open>history.redo\<close> of the missing module.\<close>

definition history_redo :: "history_stack \<Rightarrow> flow \<Rightarrow> history_stack \<times> flow" where
  "history_redo h g =
    (case rev (future h) of
       [] \<Rightarrow> (h, g)
     | a # older \<Rightarrow> (\<lparr>past = past h @ [a], future = rev older\<rparr>, redo a g))"

subsection \<open>Double-precision arithmetic\<close>

text \<open>
  JavaScript computes with IEEE 754 doubles, and the results of its operations are
  rounded. The subtraction, the squaring \<open>Math.pow(x, 2)\<close>, the addition and the square
  root that \<open>onNodeDragEnd\<close> applies to coordinates are therefore a parameter of that
  handler; what is proved of the handler holds whatever the four operations return.
\<close>

record arith =
  f_sub :: "real \<Rightarrow> real \<Rightarrow> real"
  f_pow2 :: "real \<Rightarrow> real"
  f_add :: "real \<Rightarrow> real \<Rightarrow> real"
  f_sqrt :: "real \<Rightarrow> real"

text \<open>
  The operations of IEEE 754 binary64 in the normal range: the exact result, rounded to 53
  significant bits, to the nearest such number, a tie going to the one whose last bit is
  0. (Overflow, subnormal numbers, infinities and NaN are left out. The language defines
  subtraction and addition in this way and leaves the accuracy of \<open>Math.pow\<close> and
  \<open>Math.sqrt\<close> to the engine; the concrete drags below square and take the root only
  where the exact result is a double.)
\<close>

definition ties_to_even :: "real \<Rightarrow> int" where
  "ties_to_even y =
    (let f = \<lfloor>y\<rfloor>
     in if y - of_int f < 1 / 2 then f
        else if 1 / 2 < y - of_int f then f + 1
        else if even f then f else f + 1)"

definition round53 :: "real \<Rightarrow> real" where
  "round53 x =
    (if x = 0 then 0
     else (let e = \<lfloor>log 2 \<bar>x\<bar>\<rfloor>
           in of_int (ties_to_even (x * 2 powi (52 - e))) * 2 powi (e - 52)))"

definition double_arith :: arith where
  "double_arith =
     \<lparr>f_sub = (\<lambda>a b. round53 (a - b)), f_pow2 = (\<lambda>a. round53 (a * a)),
      f_add = (\<lambda>a b. round53 (a + b)), f_sqrt = (\<lambda>a. round53 (sqrt a))\<rparr>"

subsection \<open>The editor and its handlers\<close>

record editor =
  graph :: flow
  nodeId :: nat
  copiedNodes :: "custom_node list"
  copiedEdges :: "custom_edge list"
  isAnyModalOpen :: bool
  initialPositionRef :: "string \<Rightarrow> position option"
  isDragging :: bool
  history :: history_stack

definition MINIMUM_MOVE_BEFORE_LOG :: real where
  "MINIMUM_MOVE_BEFORE_LOG = 50"

text \<open>\<open>onNodeDragStart\<close> (lines 141-144).\<close>

definition onNodeDragStart :: "custom_node \<Rightarrow> editor \<Rightarrow> editor" where
  "onNodeDragStart node st =
     st\<lparr>initialPositionRef := (initialPositionRef st)(n_id node \<mapsto> n_position node),
        isDragging := True\<rparr>"

text \<open>The movement distance as \<open>onNodeDragEnd\<close> computes it (lines 156-159).\<close>

definition distanceMoved :: "arith \<Rightarrow> position \<Rightarrow> position \<Rightarrow> real" where
  "distanceMoved ar oldPosition newPosition =
     f_sqrt ar
       (f_add ar (f_pow2 ar (f_sub ar (pos_x newPosition) (pos_x oldPosition)))
                 (f_pow2 ar (f_sub ar (pos_y newPosition) (pos_y oldPosition))))"

text \<open>\<open>onNodeDragEnd\<close> (lines 146-171); the argument is \<open>None\<close> for a null node.\<close>

definition onNodeDragEnd :: "arith \<Rightarrow> custom_node option \<Rightarrow> editor \<Rightarrow> editor" where
  "onNodeDragEnd ar arg st =
    (case arg of
       None \<Rightarrow> st
     | Some node \<Rightarrow>
        (let st1 = st\<lparr>isDragging := False\<rparr>
         in case initialPositionRef st1 (n_id node) of
              None \<Rightarrow> st1
            | Some oldPosition \<Rightarrow>
               (let newPosition = n_position node;
                    st2 = (if distanceMoved ar oldPosition newPosition > MINIMUM_MOVE_BEFORE_LOG then
                             st1\<lparr>history := push
                                   \<lparr>a_type = ''UPDATE_NODE_POSITION'',
                                    a_payload = UpdateNodePositionPayload (n_id node) oldPosition newPosition,
                                    undo = updateNode_position (n_id node) oldPosition,
                                    redo = updateNode_position (n_id node) newPosition\<rparr>
                                   (history st1)\<rparr>
                           else st1)
                in st2\<lparr>initialPositionRef := (initialPositionRef st2)(n_id node := None)\<rparr>)))"

text \<open>
  \<open>onConnect\<close> (lines 221-259). \<open>getOutputType\<close> and \<open>getTypeColor\<close> come from outside the
  file and are parameters. Reading \<open>position\<close> of a source node that \<open>getNode\<close> did not
  find throws, before anything is changed: the result is \<open>None\<close>.
\<close>

text \<open>The edge \<open>onConnect\<close> builds (lines 227-243).\<close>

definition newEdge :: "string \<Rightarrow> custom_node \<Rightarrow> connection \<Rightarrow> custom_edge" where
  "newEdge edgeColour sourceNode conn =
     \<lparr>e_id = formatEdgeID (Inr conn),
      e_type = ''custom'',
      e_markerEnd = \<lparr>m_type = ''arrowclosed'', strokeWidth = 2, color = edgeColour\<rparr>,
      e_data = \<lparr>edgeColor = edgeColour, sourcePos = n_position sourceNode,
                isStatic = isOutputStatic (n_data sourceNode)\<rparr>,
      e_source = source conn,
      e_target = target conn,
      e_sourceHandle = sourceHandle conn,
      e_targetHandle = targetHandle conn,
      e_selected = False\<rparr>"

definition onConnect ::
  "(string \<Rightarrow> string option \<Rightarrow> string option) \<Rightarrow> (string option \<Rightarrow> string) \<Rightarrow>
   connection \<Rightarrow> editor \<Rightarrow> editor option" where
  "onConnect getOutputType getTypeColor conn st =
    (let edgeColor = getTypeColor (getOutputType (source conn) (sourceHandle conn))
     in case getNode (source conn) (graph st) of
          None \<Rightarrow> None
        | Some sourceNode \<Rightarrow>
           (let edge = newEdge edgeColor sourceNode conn
            in Some (st\<lparr>graph := clearNodesStatusAndOutput (instance_addEdges [edge] (graph st)),
                        history := push
                          \<lparr>a_type = ''ADD_EDGE'',
                           a_payload = AddEdgePayload edge,
                           undo = deleteElements_edges [e_id edge],
                           redo = instance_addEdges [edge]\<rparr>
                          (history st)\<rparr>)))"

text \<open>
  \<open>addNode\<close> (lines 342-397). The viewport and the window size are read from the
  environment; the library keeps the zoom between \<open>minZoom\<close> 0.2 and \<open>maxZoom\<close> 2.
\<close>

record viewport =
  vp_x :: real
  vp_y :: real
  vp_zoom :: real
  innerWidth :: real
  innerHeight :: real

text \<open>The node \<open>addNode\<close> builds (lines 351-373).\<close>

definition newNode :: "block_schema \<Rightarrow> viewport \<Rightarrow> string \<Rightarrow> string \<Rightarrow> nat \<Rightarrow> custom_node" where
  "newNode nodeSchema vp blockId nodeType counter =
     \<lparr>n_id = toString counter,
      n_type = ''custom'',
      n_position = \<lparr>pos_x = (innerWidth vp / 2 - vp_x vp) / vp_zoom vp,
                     pos_y = (innerHeight vp / 2 - vp_y vp) / vp_zoom vp\<rparr>,
      n_data =
        \<lparr>blockType = nodeType,
         title = nodeType @ '' '' @ toString counter,
         description = sch_description nodeSchema,
         categories = sch_categories nodeSchema,
         inputSchema = sch_inputSchema nodeSchema,
         outputSchema = sch_outputSchema nodeSchema,
         hardcodedValues = [],
         connections = [],
         isOutputOpen = False,
         block_id = blockId,
         isOutputStatic = sch_staticOutput nodeSchema,
         status = None,
         output_data = None\<rparr>,
      n_selected = False\<rparr>"

definition addNode :: "block_schema list \<Rightarrow> viewport \<Rightarrow> string \<Rightarrow> string \<Rightarrow> editor \<Rightarrow> editor" where
  "addNode availableNodes vp blockId nodeType st =
    (case find (\<lambda>node. sch_id node = blockId) availableNodes of
       None \<Rightarrow> st
     | Some nodeSchema \<Rightarrow>
        (let node = newNode nodeSchema vp blockId nodeType (nodeId st)
         in st\<lparr>graph := clearNodesStatusAndOutput (instance_addNodes [node] (graph st)),
               nodeId := nodeId st + 1,
               history := push
                 \<lparr>a_type = ''ADD_NODE'',
                  a_payload = AddNodePayload (n_data node),
                  undo = deleteElements_nodes [n_id node],
                  redo = instance_addNodes [node]\<rparr>
                 (history st)\<rparr>))"

text \<open>\<open>handleUndo\<close> and \<open>handleRedo\<close> (lines 399-405).\<close>

definition handleUndo :: "editor \<Rightarrow> editor" where
  "handleUndo st = (case history_undo (history st) (graph st) of (h, g) \<Rightarrow> st\<lparr>graph := g, history := h\<rparr>)"

definition handleRedo :: "editor \<Rightarrow> editor" where
  "handleRedo st = (case history_redo (history st) (graph st) of (h, g) \<Rightarrow> st\<lparr>graph := g, history := h\<rparr>)"

text \<open>The keyboard: the event, and the element that has the focus.\<close>

record key_event =
  ctrlKey :: bool
  metaKey :: bool
  shiftKey :: bool
  key :: string

record element =
  tagName :: string
  contenteditable :: "string option"

text \<open>The first key listener (lines 115-132): undo and redo.\<close>

definition handleKeyDown_undoRedo :: "bool \<Rightarrow> key_event \<Rightarrow> editor \<Rightarrow> editor" where
  "handleKeyDown_undoRedo isMac event st =
    (let isUndo = (if isMac then metaKey event else ctrlKey event) \<and> key event = ''z'';
         isRedo = (if isMac then metaKey event else ctrlKey event)
                    \<and> (key event = ''y'' \<or> (shiftKey event \<and> key event = ''Z''));
         st1 = (if isUndo then handleUndo st else st)
     in if isRedo then handleRedo st1 else st1)"

definition isInputField :: "element option \<Rightarrow> bool" where
  "isInputField activeElement =
    (case activeElement of
       None \<Rightarrow> False
     | Some el \<Rightarrow> tagName el = ''INPUT'' \<or> tagName el = ''TEXTAREA'' \<or> contenteditable el = Some ''true'')"

text \<open>
  The second key listener, \<open>handleKeyDown\<close> (lines 407-480): copy and paste. \<open>now k\<close> is
  what \<open>Date.now()\<close> returns while the \<open>k\<close>-th copied edge is pasted. The ids of what is
  pasted are made from the counter and from the clock; they are taken to be new to the
  graph.
\<close>

definition oldToNewNodeIDMap :: "nat \<Rightarrow> custom_node list \<Rightarrow> string \<Rightarrow> string option" where
  "oldToNewNodeIDMap counter copied =
     fold (\<lambda>(node, index) m. m(n_id node \<mapsto> toString (counter + index)))
       (zip copied [0..<length copied]) Map.empty"

definition pastedNodes :: "nat \<Rightarrow> custom_node list \<Rightarrow> custom_node list" where
  "pastedNodes counter copied =
     map (\<lambda>(node, index).
            node\<lparr>n_id := toString (counter + index),
                 n_position := \<lparr>pos_x = pos_x (n_position node) + 20,
                                pos_y = pos_y (n_position node) + 20\<rparr>,
                 n_data := (n_data node)\<lparr>status := None, output_data := None\<rparr>\<rparr>)
       (zip copied [0..<length copied])"

definition pastedEdges :: "(nat \<Rightarrow> nat) \<Rightarrow> (string \<Rightarrow> string option) \<Rightarrow> custom_edge list \<Rightarrow> custom_edge list" where
  "pastedEdges now idMap copied =
     map (\<lambda>(edge, k).
            (let newSourceId = (case idMap (e_source edge) of Some i \<Rightarrow> i | None \<Rightarrow> e_source edge);
                 newTargetId = (case idMap (e_target edge) of Some i \<Rightarrow> i | None \<Rightarrow> e_target edge)
             in edge\<lparr>e_id := newSourceId @ ''_'' @ tmpl (e_sourceHandle edge) @ ''_'' @ newTargetId
                              @ ''_'' @ tmpl (e_targetHandle edge) @ ''_'' @ toString (now k),
                     e_source := newSourceId,
                     e_target := newTargetId\<rparr>))
       (zip copied [0..<length copied])"

definition handleKeyDown :: "element option \<Rightarrow> (nat \<Rightarrow> nat) \<Rightarrow> key_event \<Rightarrow> editor \<Rightarrow> editor" where
  "handleKeyDown activeElement now event st =
    (if isAnyModalOpen st \<or> isInputField activeElement then st
     else if ctrlKey event \<or> metaKey event then
       (let st1 = (if key event = ''c'' \<or> key event = ''C'' then
                     st\<lparr>copiedNodes := filter n_selected (nodes (graph st)),
                        copiedEdges := filter e_selected (edges (graph st))\<rparr>
                   else st)
        in if (key event = ''v'' \<or> key event = ''V'') \<and> copiedNodes st \<noteq> [] then
             (let g1 = (graph st1)\<lparr>nodes := map (\<lambda>node. node\<lparr>n_selected := False\<rparr>) (nodes (graph st1))\<rparr>;
                  g2 = addNodes (pastedNodes (nodeId st) (copiedNodes st)) g1;
                  g3 = addEdges (pastedEdges now (oldToNewNodeIDMap (nodeId st) (copiedNodes st)) (copiedEdges st)) g2
              in st1\<lparr>graph := g3, nodeId := nodeId st + length (copiedNodes st)\<rparr>)
           else st1)
     else st)"

subsection \<open>Everything the component reacts to\<close>

record env =
  env_availableNodes :: "block_schema list"
  env_getOutputType :: "string \<Rightarrow> string option \<Rightarrow> string option"
  env_getTypeColor :: "string option \<Rightarrow> string"
  env_isMac :: bool
  env_viewport :: viewport
  env_arith :: arith

datatype event =
    NodeDragStart custom_node
  | NodeDragStop "custom_node option"
  | NodesChange "node_change list"
  | EdgesChange "edge_change list"
  | NodesDelete
  | Connect connection
  | AddBlock string string
  | KeyDown key_event "element option" "nat \<Rightarrow> nat"
  | UndoClick
  | RedoClick

text \<open>
  The props of the \<open>ReactFlow\<close> element and of the control panel (lines 514-537) and the
  two window listeners bind the handlers to the events. A key press reaches both
  listeners, in the order they were registered.
\<close>

fun dispatch :: "env \<Rightarrow> event \<Rightarrow> editor \<Rightarrow> editor option" where
  "dispatch en (NodeDragStart node) st = Some (onNodeDragStart node st)"
| "dispatch en (NodeDragStop node) st = Some (onNodeDragEnd (env_arith en) node st)"
| "dispatch en (NodesChange changes) st = Some (st\<lparr>graph := onNodesChange changes (graph st)\<rparr>)"
| "dispatch en (EdgesChange changes) st = Some (st\<lparr>graph := onEdgesChange changes (graph st)\<rparr>)"
| "dispatch en NodesDelete st = Some (st\<lparr>graph := onNodesDelete (graph st)\<rparr>)"
| "dispatch en (Connect conn) st = onConnect (env_getOutputType en) (env_getTypeColor en) conn st"
| "dispatch en (AddBlock blockId nodeType) st =
     Some (addNode (env_availableNodes en) (env_viewport en) blockId nodeType st)"
| "dispatch en (KeyDown ev activeElement now) st =
     Some (handleKeyDown activeElement now ev (handleKeyDown_undoRedo (env_isMac en) ev st))"
| "dispatch en UndoClick st = Some (handleUndo st)"
| "dispatch en RedoClick st = Some (handleRedo st)"

subsection \<open>Notions used to state the properties\<close>

text \<open>What \<open>onEdgesChange\<close> does to one node when edges are added: their connection entries
  are appended to the node's data.\<close>

definition add_connections :: "custom_edge list \<Rightarrow> custom_node \<Rightarrow> custom_node" where
  "add_connections es node =
     node\<lparr>n_data := (n_data node)\<lparr>connections := connections (n_data node) @ map connection_of es\<rparr>\<rparr>"

text \<open>What \<open>clearNodesStatusAndOutput\<close> does to one node, and what \<open>onEdgesChange\<close> does
  to one node when the edges with the given ids are removed.\<close>

definition clear_node :: "custom_node \<Rightarrow> custom_node" where
  "clear_node node =
     node\<lparr>n_data := (n_data node)\<lparr>status := None, output_data := None, isOutputOpen := False\<rparr>\<rparr>"




text \<open>Every entry the history holds, in the order the entries were pushed.\<close>

definition entries :: "history_stack \<Rightarrow> action list" where
  "entries h = past h @ rev (future h)"





text \<open>The number a string of decimal digits stands for.\<close>

definition digit_value :: "char \<Rightarrow> nat" where
  "digit_value c = length (takeWhile (\<lambda>d. d \<noteq> c) ''0123456789'')"

definition decimal_value :: "string \<Rightarrow> nat" where
  "decimal_value s = foldl (\<lambda>v c. 10 * v + digit_value c) 0 s"




subsection \<open>Concrete values\<close>

definition blockA :: block_schema where
  "blockA = \<lparr>sch_id = ''blockA'', sch_description = ''adds two numbers'',
     sch_categories = [JStr ''LOGIC''], sch_inputSchema = JObj [(''a'', JStr ''number'')],
     sch_outputSchema = JObj [(''sum'', JStr ''number'')], sch_staticOutput = False\<rparr>"

definition view0 :: viewport where
  "view0 = \<lparr>vp_x = 0, vp_y = 0, vp_zoom = 1, innerWidth = 800, innerHeight = 600\<rparr>"

text \<open>The state the component starts in (lines 59-65 and 82-85), on an empty graph.\<close>

definition initial_editor :: editor where
  "initial_editor =
     \<lparr>graph = \<lparr>nodes = [], edges = [], closure_edges = []\<rparr>, nodeId = 1, copiedNodes = [],
      copiedEdges = [], isAnyModalOpen = False, initialPositionRef = Map.empty,
      isDragging = False, history = \<lparr>past = [], future = []\<rparr>\<rparr>"

definition one_node :: editor where
  "one_node = addNode [blockA] view0 ''blockA'' ''Calc'' initial_editor"

definition two_nodes :: editor where
  "two_nodes = addNode [blockA] view0 ''blockA'' ''Calc'' one_node"

definition conn12 :: connection where
  "conn12 = \<lparr>source = ''1'', sourceHandle = Some ''sum'', target = ''2'', targetHandle = Some ''a''\<rparr>"

definition outputType0 :: "string \<Rightarrow> string option \<Rightarrow> string option" where
  "outputType0 nodeID handle = Some ''number''"

definition typeColor0 :: "string option \<Rightarrow> string" where
  "typeColor0 t = ''#ff0000''"

definition connected :: editor where
  "connected = the (onConnect outputType0 typeColor0 conn12 two_nodes)"

definition node_at :: "string \<Rightarrow> real \<Rightarrow> real \<Rightarrow> custom_node" where
  "node_at i px py =
     \<lparr>n_id = i, n_type = ''custom'', n_position = \<lparr>pos_x = px, pos_y = py\<rparr>,
      n_data = \<lparr>blockType = ''Calc'', title = ''Calc'', description = [], categories = [],
                inputSchema = JNull, outputSchema = JNull, hardcodedValues = [], connections = [],
                isOutputOpen = False, block_id = ''blockA'', isOutputStatic = False,
                status = None, output_data = None\<rparr>,
      n_selected = False\<rparr>"

definition env0 :: env where
  "env0 = \<lparr>env_availableNodes = [blockA], env_getOutputType = outputType0,
            env_getTypeColor = typeColor0, env_isMac = False, env_viewport = view0,
            env_arith = double_arith\<rparr>"

definition edge12 :: custom_edge where
  "edge12 = \<lparr>e_id = ''1_sum_2_a'', e_type = ''custom'',
      e_markerEnd = \<lparr>m_type = ''arrowclosed'', strokeWidth = 2, color = ''#ff0000''\<rparr>,
      e_data = \<lparr>edgeColor = ''#ff0000'', sourcePos = \<lparr>pos_x = 0, pos_y = 0\<rparr>, isStatic = False\<rparr>,
      e_source = ''1'', e_target = ''2'', e_sourceHandle = Some ''sum'',
      e_targetHandle = Some ''a'', e_selected = False\<rparr>"

definition edge_1_2 :: custom_edge where
  "edge_1_2 = newEdge ''#ff0000'' (newNode blockA view0 ''blockA'' ''Calc'' (Suc 0)) conn12"


definition node1 :: custom_node where
  "node1 = clear_node (add_connections [edge_1_2] (newNode blockA view0 ''blockA'' ''Calc'' 1))"

definition node2 :: custom_node where
  "node2 = clear_node (add_connections [edge_1_2] (newNode blockA view0 ''blockA'' ''Calc'' 2))"

definition selected :: editor where
  "selected = the (dispatch env0 (EdgesChange [EdgeSelect ''1_sum_2_a'' True])
                (the (dispatch env0 (NodesChange [NodeSelect ''1'' True]) connected)))"

definition ctrl_c :: key_event where
  "ctrl_c = \<lparr>ctrlKey = True, metaKey = False, shiftKey = False, key = ''c''\<rparr>"

definition ctrl_v :: key_event where
  "ctrl_v = \<lparr>ctrlKey = True, metaKey = False, shiftKey = False, key = ''v''\<rparr>"

definition now0 :: "nat \<Rightarrow> nat" where
  "now0 k = 1000 + k"

definition copied :: editor where
  "copied = the (dispatch env0 (KeyDown ctrl_c None now0) selected)"

definition pasted :: editor where
  "pasted = the (dispatch env0 (KeyDown ctrl_v None now0) copied)"




text \<open>Two nodes and an edge between them, seen by an \<open>onNodesChange\<close> that was built
  when there was no edge.\<close>

definition stale_graph :: flow where
  "stale_graph =
     \<lparr>nodes = [node_at ''1'' 0 0, node_at ''2'' 100 0], edges = [edge12], closure_edges = []\<rparr>"

section \<open>Properties\<close>

subsection \<open>Add changes\<close>

lemma node_changes_for_adds [simp]: "node_changes_for i acc (map NodeAdd ns) = acc"
  by (induction ns) auto

lemma added_nodes_adds [simp]: "added_nodes (map NodeAdd ns) = ns"
  by (induction ns) auto

lemma removed_node_ids_adds [simp]: "removed_node_ids (map NodeAdd ns) = []"
  by (induction ns) auto

lemma concat_singletons: "concat (map (\<lambda>x. [x]) xs) = xs"
  by (induction xs) auto

lemma applyNodeChanges_adds: "applyNodeChanges (map NodeAdd ns) xs = xs @ ns"
  by (simp add: applyNodeChanges_def concat_singletons)

lemma addNodes_eq: "addNodes ns g = g\<lparr>nodes := nodes g @ ns\<rparr>"
  by (simp add: addNodes_def onNodesChange_def applyNodeChanges_adds)

lemma edge_changes_for_adds [simp]: "edge_changes_for i acc (map EdgeAdd es) = acc"
  by (induction es) auto

lemma added_edges_adds [simp]: "added_edges (map EdgeAdd es) = es"
  by (induction es) auto

lemma removed_edge_ids_adds [simp]: "removed_edge_ids (map EdgeAdd es) = []"
  by (induction es) auto

lemma replace_edges_adds [simp]: "replace_edges (map EdgeAdd es) = []"
  by (induction es) auto

lemma applyEdgeChanges_adds: "applyEdgeChanges (map EdgeAdd es) xs = xs @ es"
  by (simp add: applyEdgeChanges_def concat_singletons)

lemma add_connections_Nil [simp]: "add_connections [] = (\<lambda>n. n)"
  by (rule ext) (simp add: add_connections_def)

lemma addEdges_eq:
  "addEdges es g = g\<lparr>edges := edges g @ es, nodes := map (add_connections es) (nodes g)\<rparr>"
proof (cases "es = []")
  case True
  have "applyEdgeChanges (map EdgeAdd []) (edges g) = edges g"
    by (simp only: applyEdgeChanges_adds) simp
  then show ?thesis using True
    by (simp add: addEdges_def onEdgesChange_def Let_def)
next
  case False
  then show ?thesis
    by (simp add: addEdges_def onEdgesChange_def applyEdgeChanges_adds Let_def
        add_connections_def [abs_def])
qed

lemma clear_nodes:
  "nodes (clearNodesStatusAndOutput g) =
     map (\<lambda>node. node\<lparr>n_data := (n_data node)
            \<lparr>status := None, output_data := None, isOutputOpen := False\<rparr>\<rparr>) (nodes g)"
  by (simp add: clearNodesStatusAndOutput_def)

lemma clear_flow:
  "clearNodesStatusAndOutput g = g\<lparr>nodes := map (\<lambda>node. node\<lparr>n_data := (n_data node)
           \<lparr>status := None, output_data := None, isOutputOpen := False\<rparr>\<rparr>) (nodes g)\<rparr>"
  by (simp add: clearNodesStatusAndOutput_def)

lemma clear_flow2: "clearNodesStatusAndOutput g = g\<lparr>nodes := map clear_node (nodes g)\<rparr>"
  by (simp add: clearNodesStatusAndOutput_def clear_node_def [abs_def])

lemma clear_node_idem [simp]: "clear_node (clear_node n) = clear_node n"
  by (simp add: clear_node_def)

lemma clear_node_id [simp]: "n_id (clear_node n) = n_id n"
  by (simp add: clear_node_def)

lemma clear_newNode [simp]: "clear_node (newNode sch vp b t c) = newNode sch vp b t c"
  by (simp add: clear_node_def newNode_def)

lemma id_newNode [simp]: "n_id (newNode sch vp b t c) = toString c"
  by (simp add: newNode_def)

lemma id_newEdge [simp]: "e_id (newEdge col sn c) = formatEdgeID (Inr c)"
  by (simp add: newEdge_def)

lemma last_past_push [simp]: "last (past (push a h)) = a"
  by (simp add: push_def)

lemma push_neq: "push a h \<noteq> h"
proof
  assume "push a h = h"
  then have "past (push a h) = past h" by simp
  then show False by (simp add: push_def)
qed


subsection \<open>Adding an element whose id may be in use\<close>

text \<open>On elements whose ids are all new to the graph, the library's functions report add
  changes only.\<close>

lemma instance_addNodes_all_new:
  assumes "\<forall>x \<in> set payload. \<forall>n \<in> set (nodes g). n_id n \<noteq> n_id x"
  shows "instance_addNodes payload g = addNodes payload g"
proof -
  have "reported_node_changes payload (nodes g) = map NodeAdd payload"
    using assms by (auto simp add: reported_node_changes_def list_ex_iff)
  then show ?thesis by (simp add: instance_addNodes_def addNodes_def)
qed

lemma instance_addEdges_all_new:
  assumes "\<forall>x \<in> set payload. \<forall>e \<in> set (edges g). e_id e \<noteq> e_id x"
  shows "instance_addEdges payload g = addEdges payload g"
proof -
  have "reported_edge_changes payload (edges g) = map EdgeAdd payload"
    using assms by (auto simp add: reported_edge_changes_def list_ex_iff)
  then show ?thesis by (simp add: instance_addEdges_def addEdges_def)
qed

lemma instance_addNodes_new:
  assumes "list_all (\<lambda>n. n_id n \<noteq> n_id x) (nodes g)"
  shows "instance_addNodes [x] g = addNodes [x] g"
  using assms by (intro instance_addNodes_all_new) (simp add: list_all_iff)

lemma instance_addEdges_new:
  assumes "list_all (\<lambda>x. e_id x \<noteq> e_id e) (edges g)"
  shows "instance_addEdges [e] g = addEdges [e] g"
  using assms by (intro instance_addEdges_all_new) (simp add: list_all_iff)



lemma added_node_graph:
  assumes "list_all (\<lambda>n. n_id n \<noteq> n_id x) (nodes g)"
  shows "clearNodesStatusAndOutput (instance_addNodes [x] g)
           = g\<lparr>nodes := map clear_node (nodes g) @ [clear_node x]\<rparr>"
  by (simp add: instance_addNodes_new [OF assms] addNodes_eq clear_flow2)

lemma added_edge_graph:
  assumes "list_all (\<lambda>x. e_id x \<noteq> e_id e) (edges g)"
  shows "clearNodesStatusAndOutput (instance_addEdges [e] g)
           = g\<lparr>edges := edges g @ [e], nodes := map (\<lambda>n. clear_node (add_connections [e] n)) (nodes g)\<rparr>"
  by (simp add: instance_addEdges_new [OF assms] addEdges_eq clear_flow2 comp_def)


subsection \<open>Decimal rendering is injective\<close>

lemma digit_char_inj: "a < 10 \<Longrightarrow> b < 10 \<Longrightarrow> digit_char a = digit_char b \<Longrightarrow> a = b"
proof -
  assume a: "a < 10" and b: "b < 10" and e: "digit_char a = digit_char b"
  have d: "distinct ''0123456789''" by simp
  have "a < length ''0123456789''" "b < length ''0123456789''" using a b by simp_all
  then show "a = b"
    using e nth_eq_iff_index_eq [OF d] unfolding digit_char_def by blast
qed

lemma toString_small: "n < 10 \<Longrightarrow> toString n = [digit_char n]"
  by (simp add: toString.simps)

lemma toString_large: "\<not> n < 10 \<Longrightarrow> toString n = toString (n div 10) @ [digit_char (n mod 10)]"
  by (subst toString.simps) simp

lemma toString_nonempty: "toString n \<noteq> []"
  by (cases "n < 10") (simp_all add: toString_small toString_large)

lemma toString_inj: "toString a = toString b \<Longrightarrow> a = b"
proof (induction a arbitrary: b rule: toString.induct)
  case (1 a)
  show ?case
  proof (cases "a < 10")
    case True
    then have b: "b < 10"
    proof -
      have "toString b = [digit_char a]" using "1.prems" True by (simp add: toString_small)
      then have "length (toString b) = 1" by simp
      then show ?thesis
        using toString_nonempty [of "b div 10"] toString_large [of b] by (cases "b < 10") auto
    qed
    then show ?thesis using "1.prems" True digit_char_inj by (simp add: toString_small)
  next
    case False
    then have b: "\<not> b < 10"
    proof -
      have "length (toString a) \<noteq> 1"
        using toString_nonempty [of "a div 10"] toString_large [OF False] by auto
      then show ?thesis using "1.prems" toString_small [of b] by auto
    qed
    have "toString (a div 10) @ [digit_char (a mod 10)] = toString (b div 10) @ [digit_char (b mod 10)]"
      using "1.prems" toString_large [OF False] toString_large [OF b] by simp
    then have "toString (a div 10) = toString (b div 10)" "digit_char (a mod 10) = digit_char (b mod 10)"
      by simp_all
    then have "a div 10 = b div 10" "a mod 10 = b mod 10"
      using "1.IH" [OF False] digit_char_inj [of "a mod 10" "b mod 10"] by simp_all
    then show ?thesis by (metis div_mult_mod_eq)
  qed
qed

subsection \<open>Decimal rendering is the number\<close>

lemma toString_1: "toString 1 = ''1''" by (simp add: toString.simps digit_char_def)
lemma toString_2: "toString 2 = ''2''" by (simp add: toString.simps digit_char_def)
lemma toString_3: "toString 3 = ''3''" by (simp add: toString.simps digit_char_def)
lemma toString_1000: "toString 1000 = ''1000''" by (simp add: toString.simps digit_char_def)
lemma toString_Suc0: "toString (Suc 0) = ''1''" using toString_1 by simp
lemma toString_Suc1: "toString (Suc (Suc 0)) = ''2''" using toString_2 by (simp add: numeral_2_eq_2)

lemma takeWhile_index:
  "distinct xs \<Longrightarrow> i < length xs \<Longrightarrow> length (takeWhile (\<lambda>d. d \<noteq> xs ! i) xs) = i"
proof (induction xs arbitrary: i)
  case Nil
  then show ?case by simp
next
  case (Cons x xs)
  show ?case
  proof (cases i)
    case 0
    then show ?thesis by simp
  next
    case (Suc j)
    then have "xs ! j \<in> set xs" using Cons.prems by simp
    then have "x \<noteq> xs ! j" using Cons.prems by auto
    then show ?thesis using Suc Cons by simp
  qed
qed

lemma digit_value_digit_char: "d < 10 \<Longrightarrow> digit_value (digit_char d) = d"
  unfolding digit_value_def digit_char_def by (rule takeWhile_index) simp_all

lemma decimal_value_snoc: "decimal_value (s @ [c]) = 10 * decimal_value s + digit_value c"
  by (simp add: decimal_value_def)

lemma decimal_value_toString: "decimal_value (toString n) = n"
proof (induction n rule: toString.induct)
  case (1 n)
  show ?case
  proof (cases "n < 10")
    case True
    then show ?thesis
      by (simp add: toString_small decimal_value_def digit_value_digit_char)
  next
    case False
    have "decimal_value (toString n) = 10 * decimal_value (toString (n div 10)) + digit_value (digit_char (n mod 10))"
      using toString_large [OF False] by (simp add: decimal_value_snoc)
    then show ?thesis using "1.IH" [OF False] by (simp add: digit_value_digit_char)
  qed
qed

lemma digit_char_digit: "d < 10 \<Longrightarrow> digit_char d \<in> set ''0123456789''"
  unfolding digit_char_def by (rule nth_mem) simp

lemma toString_digits: "list_all (\<lambda>c. c \<in> set ''0123456789'') (toString n)"
proof (induction n rule: toString.induct)
  case (1 n)
  show ?case
  proof (cases "n < 10")
    case True
    then show ?thesis using digit_char_digit [of n] by (simp add: toString_small)
  next
    case False
    have "n mod 10 < 10" by simp
    then show ?thesis
      using toString_large [OF False] "1.IH" [OF False] digit_char_digit [of "n mod 10"] by simp
  qed
qed

subsection \<open>Adding a node\<close>

text \<open>
  C8. When the block id matches no entry of \<open>availableNodes\<close>, \<open>addNode\<close> leaves the whole
  editor state as it was: no node is added, the counter keeps its value, the history is
  not touched and no status is cleared.
\<close>

theorem addNode_unknown_block:
  assumes "\<forall>node \<in> set availableNodes. sch_id node \<noteq> blockId"
  shows "addNode availableNodes vp blockId nodeType st = st"
proof -
  have "find (\<lambda>node. sch_id node = blockId) availableNodes = None"
    using assms by (simp add: find_None_iff)
  then show ?thesis by (simp add: addNode_def)
qed

theorem addNode_unknown_block_witness:
  "sch_id blockA \<noteq> ''blockB''
   \<and> addNode [blockA] view0 ''blockB'' ''Calc'' initial_editor = initial_editor"
  using addNode_unknown_block [of "[blockA]" "''blockB''" view0 "''Calc''" initial_editor]
  by (simp add: blockA_def)

lemma addNode_found:
  assumes "find (\<lambda>node. sch_id node = b) av = Some sch"
  shows "addNode av vp b t st =
     st\<lparr>graph := clearNodesStatusAndOutput (instance_addNodes [newNode sch vp b t (nodeId st)] (graph st)),
        nodeId := nodeId st + 1,
        history := push
          \<lparr>a_type = ''ADD_NODE'',
           a_payload = AddNodePayload (n_data (newNode sch vp b t (nodeId st))),
           undo = deleteElements_nodes [toString (nodeId st)],
           redo = instance_addNodes [newNode sch vp b t (nodeId st)]\<rparr>
          (history st)\<rparr>"
  using assms by (simp add: addNode_def Let_def)

text \<open>
  C5. When the block id matches an entry of \<open>availableNodes\<close> and no node of the graph has
  the id the counter stands at, \<open>addNode\<close> puts exactly one node behind the existing ones
  (whose status and output it clears). The node's id is the counter rendered as a string:
  a non-empty string of decimal digits that stands for the counter's value. Its data
  carries the input and output schema, the description, the categories and the
  static-output flag of the first matching schema; its hardcoded values and connections
  are empty and its status is unset.
\<close>

theorem addNode_adds_schema_node:
  assumes "find (\<lambda>node. sch_id node = blockId) availableNodes = Some nodeSchema"
    and "list_all (\<lambda>n. n_id n \<noteq> toString (nodeId st)) (nodes (graph st))"
  shows "\<exists>newNode.
           nodes (graph (addNode availableNodes vp blockId nodeType st))
             = nodes (clearNodesStatusAndOutput (graph st)) @ [newNode]
         \<and> n_id newNode = toString (nodeId st)
         \<and> decimal_value (n_id newNode) = nodeId st
         \<and> n_id newNode \<noteq> []
         \<and> list_all (\<lambda>c. c \<in> set ''0123456789'') (n_id newNode)
         \<and> inputSchema (n_data newNode) = sch_inputSchema nodeSchema
         \<and> outputSchema (n_data newNode) = sch_outputSchema nodeSchema
         \<and> description (n_data newNode) = sch_description nodeSchema
         \<and> categories (n_data newNode) = sch_categories nodeSchema
         \<and> isOutputStatic (n_data newNode) = sch_staticOutput nodeSchema
         \<and> hardcodedValues (n_data newNode) = []
         \<and> connections (n_data newNode) = []
         \<and> status (n_data newNode) = None"
proof -
  let ?n = "newNode nodeSchema vp blockId nodeType (nodeId st)"
  have un: "list_all (\<lambda>n. n_id n \<noteq> n_id ?n) (nodes (graph st))"
    using assms(2) by simp
  have c: "nodes (clearNodesStatusAndOutput (graph st)) = map clear_node (nodes (graph st))"
    by (simp add: clear_flow2)
  have g: "nodes (graph (addNode availableNodes vp blockId nodeType st))
             = nodes (clearNodesStatusAndOutput (graph st)) @ [?n]"
    unfolding c by (simp add: addNode_found [OF assms(1)] added_node_graph [OF un])
  have f: "inputSchema (n_data ?n) = sch_inputSchema nodeSchema
         \<and> outputSchema (n_data ?n) = sch_outputSchema nodeSchema
         \<and> description (n_data ?n) = sch_description nodeSchema
         \<and> categories (n_data ?n) = sch_categories nodeSchema
         \<and> isOutputStatic (n_data ?n) = sch_staticOutput nodeSchema
         \<and> hardcodedValues (n_data ?n) = []
         \<and> connections (n_data ?n) = []
         \<and> status (n_data ?n) = None"
    by (simp add: newNode_def)
  show ?thesis
    using g f decimal_value_toString [of "nodeId st"] toString_nonempty [of "nodeId st"]
      toString_digits [of "nodeId st"]
    by (intro exI [of _ ?n]) simp
qed

lemma find_blockA: "find (\<lambda>node. sch_id node = ''blockA'') [blockA] = Some blockA"
  by (simp add: blockA_def)

theorem addNode_adds_schema_node_witness:
  "find (\<lambda>node. sch_id node = ''blockA'') [blockA] = Some blockA
   \<and> list_all (\<lambda>n. n_id n \<noteq> toString (nodeId initial_editor)) (nodes (graph initial_editor))
   \<and> (\<exists>newNode.
           nodes (graph (addNode [blockA] view0 ''blockA'' ''Calc'' initial_editor)) = [newNode]
         \<and> n_id newNode = ''1''
         \<and> decimal_value (n_id newNode) = 1
         \<and> inputSchema (n_data newNode) = JObj [(''a'', JStr ''number'')]
         \<and> outputSchema (n_data newNode) = JObj [(''sum'', JStr ''number'')]
         \<and> description (n_data newNode) = ''adds two numbers''
         \<and> categories (n_data newNode) = [JStr ''LOGIC'']
         \<and> isOutputStatic (n_data newNode) = False
         \<and> hardcodedValues (n_data newNode) = []
         \<and> connections (n_data newNode) = []
         \<and> status (n_data newNode) = None)"
proof -
  have u: "list_all (\<lambda>n. n_id n \<noteq> toString (nodeId initial_editor)) (nodes (graph initial_editor))"
    by (simp add: initial_editor_def)
  obtain newNode where n:
    "nodes (graph (addNode [blockA] view0 ''blockA'' ''Calc'' initial_editor))
       = nodes (clearNodesStatusAndOutput (graph initial_editor)) @ [newNode]"
    "n_id newNode = toString (nodeId initial_editor)"
    "decimal_value (n_id newNode) = nodeId initial_editor"
    "inputSchema (n_data newNode) = sch_inputSchema blockA"
    "outputSchema (n_data newNode) = sch_outputSchema blockA"
    "description (n_data newNode) = sch_description blockA"
    "categories (n_data newNode) = sch_categories blockA"
    "isOutputStatic (n_data newNode) = sch_staticOutput blockA"
    "hardcodedValues (n_data newNode) = []"
    "connections (n_data newNode) = []"
    "status (n_data newNode) = None"
    using addNode_adds_schema_node [OF find_blockA u, of view0 "''Calc''"] by blast
  have "nodes (graph (addNode [blockA] view0 ''blockA'' ''Calc'' initial_editor)) = [newNode]"
    using n(1) by (simp add: initial_editor_def clear_flow2)
  moreover have "n_id newNode = ''1''" "decimal_value (n_id newNode) = 1"
    using n(2,3) by (simp_all add: initial_editor_def toString_Suc0)
  ultimately show ?thesis
    using find_blockA u n(4-11) by (auto simp add: blockA_def)
qed

subsection \<open>Evaluating the concrete values\<close>


lemma graph_two_nodes:
  "graph two_nodes =
     \<lparr>nodes = [newNode blockA view0 ''blockA'' ''Calc'' (Suc 0), newNode blockA view0 ''blockA'' ''Calc'' (Suc (Suc 0))],
      edges = [], closure_edges = []\<rparr>"
  by (simp add: two_nodes_def one_node_def addNode_found [OF find_blockA] added_node_graph
      initial_editor_def toString_Suc0 toString_Suc1)


lemma two_nodes_rest:
  "nodeId two_nodes = 3 \<and> isAnyModalOpen two_nodes = False \<and> copiedNodes two_nodes = []"
  by (simp add: two_nodes_def one_node_def addNode_found [OF find_blockA] initial_editor_def)

lemma getNode_source: "getNode ''1'' (graph two_nodes) = Some (newNode blockA view0 ''blockA'' ''Calc'' (Suc 0))"
  by (simp add: graph_two_nodes getNode_def toString_Suc0)

lemma onConnect_found:
  assumes "getNode (source c) (graph st) = Some sn"
  shows "onConnect gt gc c st = Some
     (st\<lparr>graph := clearNodesStatusAndOutput
                    (instance_addEdges [newEdge (gc (gt (source c) (sourceHandle c))) sn c] (graph st)),
         history := push
           \<lparr>a_type = ''ADD_EDGE'',
            a_payload = AddEdgePayload (newEdge (gc (gt (source c) (sourceHandle c))) sn c),
            undo = deleteElements_edges [formatEdgeID (Inr c)],
            redo = instance_addEdges [newEdge (gc (gt (source c) (sourceHandle c))) sn c]\<rparr>
           (history st)\<rparr>)"
  using assms by (simp add: onConnect_def Let_def)


lemma connected_eq:
  "connected = two_nodes
     \<lparr>graph := (graph two_nodes)
        \<lparr>edges := [edge_1_2],
         nodes := map (\<lambda>n. clear_node (add_connections [edge_1_2] n)) (nodes (graph two_nodes))\<rparr>,
      history := push
        \<lparr>a_type = ''ADD_EDGE'', a_payload = AddEdgePayload edge_1_2,
         undo = deleteElements_edges [formatEdgeID (Inr conn12)], redo = instance_addEdges [edge_1_2]\<rparr>
        (history two_nodes)\<rparr>"
proof -
  have s: "source conn12 = ''1''" by (simp add: conn12_def)
  have "getNode (source conn12) (graph two_nodes) = Some (newNode blockA view0 ''blockA'' ''Calc'' (Suc 0))"
    unfolding s by (rule getNode_source)
  from onConnect_found [OF this, of outputType0 typeColor0] show ?thesis
    by (simp add: connected_def edge_1_2_def typeColor0_def graph_two_nodes added_edge_graph)
qed

lemma onConnect_two_nodes: "onConnect outputType0 typeColor0 conn12 two_nodes = Some connected"
proof -
  have s: "source conn12 = ''1''" by (simp add: conn12_def)
  have "getNode (source conn12) (graph two_nodes) = Some (newNode blockA view0 ''blockA'' ''Calc'' (Suc 0))"
    unfolding s by (rule getNode_source)
  from onConnect_found [OF this, of outputType0 typeColor0] show ?thesis
    by (simp add: connected_def)
qed

lemma id_edge_1_2: "e_id edge_1_2 = ''1_sum_2_a''"
  by (simp add: edge_1_2_def newEdge_def formatEdgeID_def conn12_def tmpl_def)


lemma id_node1: "n_id node1 = ''1''"
  by (simp add: node1_def toString_Suc0 add_connections_def)

lemma id_node2: "n_id node2 = ''2''"
  by (simp add: node2_def toString_2 add_connections_def)

lemma connected_graph:
  "graph connected = \<lparr>nodes = [node1, node2], edges = [edge_1_2], closure_edges = []\<rparr>"
  by (simp add: connected_eq graph_two_nodes node1_def node2_def numeral_2_eq_2)

lemma connected_rest:
  "nodeId connected = 3 \<and> isAnyModalOpen connected = False \<and> copiedNodes connected = []"
  by (simp add: connected_eq two_nodes_rest)




subsection \<open>Connecting two handles\<close>





subsection \<open>Rounding to a double\<close>

lemma floor_log2:
  assumes "2 powi e \<le> y" and "y < 2 powi (e + 1)"
  shows "\<lfloor>log 2 y\<rfloor> = e"
proof -
  have "(0::real) < 2 powi e" by simp
  then have p: "0 < y" using assms(1) by linarith
  have "(2::real) powr (of_int e) = 2 powi e" "(2::real) powr (of_int e + 1) = 2 powi (e + 1)"
    using powr_real_of_int' [of 2 e] powr_real_of_int' [of 2 "e + 1"] by simp_all
  then show ?thesis
    using floor_log_eq_powr_iff [of y 2 e] p assms by simp
qed

lemma ties_to_even_int [simp]: "ties_to_even (of_int n) = n"
  by (simp add: ties_to_even_def)

lemma ties_to_even_below: "0 \<le> d \<Longrightarrow> d < 1 / 2 \<Longrightarrow> ties_to_even (of_int n + d) = n"
proof -
  assume d: "0 \<le> d" "d < 1 / 2"
  then have "\<lfloor>of_int n + d\<rfloor> = n" by linarith
  then show ?thesis using d by (simp add: ties_to_even_def Let_def)
qed

text \<open>A number with at most 53 significant bits is its own rounding.\<close>

lemma round53_exact:
  assumes "2 powi e \<le> \<bar>x\<bar>" and "\<bar>x\<bar> < 2 powi (e + 1)" and "x * 2 powi (52 - e) = of_int n"
  shows "round53 x = x"
proof -
  have "(0::real) < 2 powi e" by simp
  then have nz: "x \<noteq> 0" using assms(1) by linarith
  have e: "\<lfloor>log 2 \<bar>x\<bar>\<rfloor> = e" by (rule floor_log2 [OF assms(1,2)])
  have "(2::real) powi (52 - e) * 2 powi (e - 52) = 2 powi ((52 - e) + (e - 52))"
    by (rule power_int_add [symmetric]) simp
  then have one: "(2::real) powi (52 - e) * 2 powi (e - 52) = 1" by simp
  have "round53 x = (x * 2 powi (52 - e)) * 2 powi (e - 52)"
    using nz e assms(3) by (simp add: round53_def)
  also have "\<dots> = x" using one by (simp add: mult.assoc)
  finally show ?thesis .
qed

text \<open>A number less than half a unit in the last place above a double rounds down to it.\<close>

lemma round53_below:
  assumes "2 powi e \<le> \<bar>x\<bar>" and "\<bar>x\<bar> < 2 powi (e + 1)" and "x * 2 powi (52 - e) = of_int n + d"
    and "0 \<le> d" and "d < 1 / 2"
  shows "round53 x = of_int n * 2 powi (e - 52)"
proof -
  have "(0::real) < 2 powi e" by simp
  then have nz: "x \<noteq> 0" using assms(1) by linarith
  have e: "\<lfloor>log 2 \<bar>x\<bar>\<rfloor> = e" by (rule floor_log2 [OF assms(1,2)])
  show ?thesis
    using nz e assms(3) ties_to_even_below [OF assms(4,5), of n] by (simp add: round53_def)
qed

text \<open>The positive integers below \<open>2 ^ 53\<close> are doubles.\<close>

lemma round53_int:
  assumes "0 < m" and "m < 2 ^ 53"
  shows "round53 (of_int m) = of_int m"
proof -
  define e where "e = \<lfloor>log 2 (of_int m)\<rfloor>"
  have pos: "(0::real) < of_int m" using assms(1) by simp
  have b: "2 powr (of_int e) \<le> (of_int m :: real) \<and> (of_int m :: real) < 2 powr (of_int e + 1)"
    using floor_log_eq_powr_iff [of "of_int m" 2 e] pos by (simp add: e_def)
  have pw: "(2::real) powr (of_int e) = 2 powi e" "(2::real) powr (of_int e + 1) = 2 powi (e + 1)"
    using powr_real_of_int' [of 2 e] powr_real_of_int' [of 2 "e + 1"] by simp_all
  have lo: "2 powi e \<le> \<bar>of_int m :: real\<bar>" and hi: "\<bar>of_int m :: real\<bar> < 2 powi (e + 1)"
    using b pw pos by simp_all
  have "(of_int m :: real) < 2 ^ 53" using assms(2) by (metis of_int_less_numeral_power_cancel_iff)
  then have "(2::real) powi e < 2 powi 53" using lo pos by (simp add: power_int_def)
  then have "e < 53" by (rule power_int_le_imp_less_exp [rotated]) simp_all
  then have e52: "e \<le> 52" by simp
  have "(2::real) powi (52 - e) = 2 ^ nat (52 - e)" using e52 by (simp add: power_int_def)
  then have "(of_int m :: real) * 2 powi (52 - e) = of_int (m * 2 ^ nat (52 - e))" by simp
  from round53_exact [OF lo hi this] show ?thesis .
qed

lemma round53_numeral [simp]:
  "(numeral k :: int) < 2 ^ 53 \<Longrightarrow> round53 (numeral k) = numeral k"
  using round53_int [of "numeral k"] by simp

lemma round53_small: "round53 (1 / 2 ^ 30) = 1 / 2 ^ 30"
  by (rule round53_exact [of "-30" _ "2 ^ 52"]) (simp_all add: power_int_def power_divide)

lemma round53_smaller: "round53 (1 / 2 ^ 60) = 1 / 2 ^ 60"
  by (rule round53_exact [of "-60" _ "2 ^ 52"]) (simp_all add: power_int_def power_divide)

lemma round53_down: "round53 (2500 + 1 / 2 ^ 60) = 2500"
  using round53_below [of 11 "2500 + 1 / 2 ^ 60" "2500 * 2 ^ 41" "1 / 2 ^ 19"]
  by (simp add: power_int_def power_divide)

lemma sqrt_2500: "sqrt 2500 = 50"
  by (rule real_sqrt_unique) simp_all

lemma sqrt_10000: "sqrt 10000 = 100"
  by (rule real_sqrt_unique) simp_all

subsection \<open>Dragging a node\<close>

lemma drag_end_after_start:
  assumes "n_id endNode = n_id startNode"
  shows "history (onNodeDragEnd ar (Some endNode) (onNodeDragStart startNode st)) =
    (if 50 < distanceMoved ar (n_position startNode) (n_position endNode) then
       push \<lparr>a_type = ''UPDATE_NODE_POSITION'',
             a_payload = UpdateNodePositionPayload (n_id endNode) (n_position startNode) (n_position endNode),
             undo = updateNode_position (n_id endNode) (n_position startNode),
             redo = updateNode_position (n_id endNode) (n_position endNode)\<rparr> (history st)
     else history st)"
  using assms
  by (simp add: onNodeDragEnd_def onNodeDragStart_def Let_def MINIMUM_MOVE_BEFORE_LOG_def)

text \<open>The distance of three drags in double precision: from (10, 20) to (70, 100), from
  (10, 20) to (40, 60), and from (1, 1) to (51, 1 + 1 / 2 ^ 30), where the sum of the
  squares, 2500 + 1 / 2 ^ 60, is rounded to 2500.\<close>

lemma distance_far:
  "distanceMoved double_arith \<lparr>pos_x = 10, pos_y = 20\<rparr> \<lparr>pos_x = 70, pos_y = 100\<rparr> = 100"
  by (simp add: distanceMoved_def double_arith_def sqrt_10000)

lemma distance_50:
  "distanceMoved double_arith \<lparr>pos_x = 10, pos_y = 20\<rparr> \<lparr>pos_x = 40, pos_y = 60\<rparr> = 50"
  by (simp add: distanceMoved_def double_arith_def sqrt_2500)

lemma distance_rounded:
  "distanceMoved double_arith \<lparr>pos_x = 1, pos_y = 1\<rparr> \<lparr>pos_x = 51, pos_y = 1 + 1 / 2 ^ 30\<rparr> = 50"
proof -
  define s :: real where "s = 1 / 2 ^ 30"
  have ss: "s * s = 1 / 2 ^ 60" by (simp add: s_def)
  have r1: "round53 s = s" unfolding s_def by (rule round53_small)
  have r2: "round53 (s * s) = s * s" unfolding ss by (rule round53_smaller)
  have r3: "round53 (2500 + s * s) = 2500" unfolding ss by (rule round53_down)
  have "distanceMoved double_arith \<lparr>pos_x = 1, pos_y = 1\<rparr> \<lparr>pos_x = 51, pos_y = 1 + s\<rparr> = 50"
    by (simp add: distanceMoved_def double_arith_def r1 r2 r3 sqrt_2500)
  then show ?thesis unfolding s_def .
qed

text \<open>
  C3, as the code has it. A drag start on a node followed by a drag end on that node
  pushes a history entry exactly when the distance that the code computes from the two
  positions in double-precision arithmetic, the rounded square root of the rounded sum of
  the rounded squares of the rounded coordinate differences, is more than 50: above 50 one
  entry is pushed, at 50 or below the history is what it was.
\<close>

theorem drag_logged_iff_moved_far:
  assumes "n_id endNode = n_id startNode"
  shows "((history (onNodeDragEnd ar (Some endNode) (onNodeDragStart startNode st)) \<noteq> history st)
            = (50 < f_sqrt ar (f_add ar
                        (f_pow2 ar (f_sub ar (pos_x (n_position endNode)) (pos_x (n_position startNode))))
                        (f_pow2 ar (f_sub ar (pos_y (n_position endNode)) (pos_y (n_position startNode)))))))
       \<and> ((\<exists>a. history (onNodeDragEnd ar (Some endNode) (onNodeDragStart startNode st))
                        = push a (history st))
            = (50 < f_sqrt ar (f_add ar
                        (f_pow2 ar (f_sub ar (pos_x (n_position endNode)) (pos_x (n_position startNode))))
                        (f_pow2 ar (f_sub ar (pos_y (n_position endNode)) (pos_y (n_position startNode)))))))
       \<and> ((history (onNodeDragEnd ar (Some endNode) (onNodeDragStart startNode st)) = history st)
            = (f_sqrt ar (f_add ar
                        (f_pow2 ar (f_sub ar (pos_x (n_position endNode)) (pos_x (n_position startNode))))
                        (f_pow2 ar (f_sub ar (pos_y (n_position endNode)) (pos_y (n_position startNode))))) \<le> 50))"
  using drag_end_after_start [OF assms, of ar st] push_neq [of _ "history st"]
    push_neq [of _ "history st", symmetric]
  by (auto simp add: distanceMoved_def)

theorem drag_logged_iff_moved_far_witness:
  "n_id (node_at ''1'' 70 100) = n_id (node_at ''1'' 10 20)
   \<and> f_sqrt double_arith (f_add double_arith (f_pow2 double_arith (f_sub double_arith 70 10))
                                               (f_pow2 double_arith (f_sub double_arith 100 20))) = 100
   \<and> history (onNodeDragEnd double_arith (Some (node_at ''1'' 70 100))
               (onNodeDragStart (node_at ''1'' 10 20) initial_editor))
        \<noteq> history initial_editor
   \<and> n_id (node_at ''1'' 40 60) = n_id (node_at ''1'' 10 20)
   \<and> f_sqrt double_arith (f_add double_arith (f_pow2 double_arith (f_sub double_arith 40 10))
                                               (f_pow2 double_arith (f_sub double_arith 60 20))) = 50
   \<and> history (onNodeDragEnd double_arith (Some (node_at ''1'' 40 60))
               (onNodeDragStart (node_at ''1'' 10 20) initial_editor))
        = history initial_editor"
proof -
  have a: "n_id (node_at ''1'' 70 100) = n_id (node_at ''1'' 10 20)" by (simp add: node_at_def)
  have b: "n_id (node_at ''1'' 40 60) = n_id (node_at ''1'' 10 20)" by (simp add: node_at_def)
  have c: "f_sqrt double_arith (f_add double_arith (f_pow2 double_arith (f_sub double_arith 70 10))
                                               (f_pow2 double_arith (f_sub double_arith 100 20))) = 100"
    using distance_far by (simp add: distanceMoved_def)
  have d: "f_sqrt double_arith (f_add double_arith (f_pow2 double_arith (f_sub double_arith 40 10))
                                               (f_pow2 double_arith (f_sub double_arith 60 20))) = 50"
    using distance_50 by (simp add: distanceMoved_def)
  have p: "n_position (node_at ''1'' x y) = \<lparr>pos_x = x, pos_y = y\<rparr>" for x y
    by (simp add: node_at_def)
  show ?thesis
    using a b c d drag_logged_iff_moved_far [OF a, of double_arith initial_editor]
      drag_logged_iff_moved_far [OF b, of double_arith initial_editor]
    by (simp add: p)
qed

text \<open>
  C3 as stated fails where the rounding decides. From (1, 1) to (51, 1 + 1 / 2 ^ 30)
  the Euclidean distance is more than 50; the code computes exactly 50 and pushes nothing.
\<close>

theorem rounded_distance_not_logged:
  "50 < sqrt ((51 - 1)\<^sup>2 + ((1 + 1 / 2 ^ 30) - 1)\<^sup>2)
   \<and> past (history initial_editor) = []
   \<and> past (history (onNodeDragEnd double_arith (Some (node_at ''1'' 51 (1 + 1 / 2 ^ 30)))
        (onNodeDragStart (node_at ''1'' 1 1) initial_editor))) = []"
proof -
  have b: "n_id (node_at ''1'' 51 (1 + 1 / 2 ^ 30)) = n_id (node_at ''1'' 1 1)"
    by (simp add: node_at_def)
  have d: "\<not> 50 < distanceMoved double_arith (n_position (node_at ''1'' 1 1))
                     (n_position (node_at ''1'' 51 (1 + 1 / 2 ^ 30)))"
    using distance_rounded by (simp add: node_at_def)
  have "(50::real)\<^sup>2 < (51 - 1)\<^sup>2 + ((1 + 1 / 2 ^ 30) - 1)\<^sup>2" by simp
  then have far: "50 < sqrt ((51 - 1)\<^sup>2 + ((1 + 1 / 2 ^ 30) - 1)\<^sup>2)"
    by (rule real_less_rsqrt)
  have "past (history (onNodeDragEnd double_arith (Some (node_at ''1'' 51 (1 + 1 / 2 ^ 30)))
        (onNodeDragStart (node_at ''1'' 1 1) initial_editor))) = []"
    using drag_end_after_start [OF b, of double_arith initial_editor] d
    by (simp add: initial_editor_def)
  then show ?thesis using far by (simp add: initial_editor_def)
qed

text \<open>
  C2, as the code has it. A drag start on a node followed by a drag end on that node
  pushes one entry of type \<open>UPDATE_NODE_POSITION\<close>, whose payload records the node's id,
  its position at drag start as the old position and its position at drag end as the new
  one, when the distance that the code computes from the two positions in double-precision
  arithmetic is more than 50; when the computed distance is 50 or less, it pushes nothing.
\<close>

theorem far_drag_pushes_move_entry:
  assumes "n_id endNode = n_id startNode"
  shows "(50 < f_sqrt ar (f_add ar
                    (f_pow2 ar (f_sub ar (pos_x (n_position endNode)) (pos_x (n_position startNode))))
                    (f_pow2 ar (f_sub ar (pos_y (n_position endNode)) (pos_y (n_position startNode)))))
          \<longrightarrow> history (onNodeDragEnd ar (Some endNode) (onNodeDragStart startNode st)) =
                push \<lparr>a_type = ''UPDATE_NODE_POSITION'',
                      a_payload = UpdateNodePositionPayload (n_id startNode) (n_position startNode)
                                    (n_position endNode),
                      undo = updateNode_position (n_id startNode) (n_position startNode),
                      redo = updateNode_position (n_id startNode) (n_position endNode)\<rparr> (history st))
       \<and> (f_sqrt ar (f_add ar
                    (f_pow2 ar (f_sub ar (pos_x (n_position endNode)) (pos_x (n_position startNode))))
                    (f_pow2 ar (f_sub ar (pos_y (n_position endNode)) (pos_y (n_position startNode))))) \<le> 50
          \<longrightarrow> history (onNodeDragEnd ar (Some endNode) (onNodeDragStart startNode st)) = history st)"
  using drag_end_after_start [OF assms, of ar st] assms
  by (simp add: distanceMoved_def)

theorem far_drag_pushes_move_entry_witness:
  "n_id (node_at ''1'' 70 100) = n_id (node_at ''1'' 10 20)
   \<and> f_sqrt double_arith (f_add double_arith (f_pow2 double_arith (f_sub double_arith 70 10))
                                               (f_pow2 double_arith (f_sub double_arith 100 20))) = 100
   \<and> map a_payload (past (history (onNodeDragEnd double_arith (Some (node_at ''1'' 70 100))
         (onNodeDragStart (node_at ''1'' 10 20) initial_editor))))
      = [UpdateNodePositionPayload ''1'' \<lparr>pos_x = 10, pos_y = 20\<rparr> \<lparr>pos_x = 70, pos_y = 100\<rparr>]
   \<and> n_id (node_at ''1'' 40 60) = n_id (node_at ''1'' 10 20)
   \<and> f_sqrt double_arith (f_add double_arith (f_pow2 double_arith (f_sub double_arith 40 10))
                                               (f_pow2 double_arith (f_sub double_arith 60 20))) = 50
   \<and> history (onNodeDragEnd double_arith (Some (node_at ''1'' 40 60))
               (onNodeDragStart (node_at ''1'' 10 20) initial_editor))
        = history initial_editor"
proof -
  have a: "n_id (node_at ''1'' 70 100) = n_id (node_at ''1'' 10 20)" by (simp add: node_at_def)
  have b: "n_id (node_at ''1'' 40 60) = n_id (node_at ''1'' 10 20)" by (simp add: node_at_def)
  have c: "f_sqrt double_arith (f_add double_arith (f_pow2 double_arith (f_sub double_arith 70 10))
                                               (f_pow2 double_arith (f_sub double_arith 100 20))) = 100"
    using distance_far by (simp add: distanceMoved_def)
  have d: "f_sqrt double_arith (f_add double_arith (f_pow2 double_arith (f_sub double_arith 40 10))
                                               (f_pow2 double_arith (f_sub double_arith 60 20))) = 50"
    using distance_50 by (simp add: distanceMoved_def)
  have p: "n_position (node_at i x y) = \<lparr>pos_x = x, pos_y = y\<rparr> \<and> n_id (node_at i x y) = i" for i x y
    by (simp add: node_at_def)
  show ?thesis
    using a b c d far_drag_pushes_move_entry [OF a, of double_arith initial_editor]
      far_drag_pushes_move_entry [OF b, of double_arith initial_editor]
    by (simp add: p push_def initial_editor_def)
qed

text \<open>
  C2 as stated fails: a drag from (10, 20) to (40, 60), a distance of exactly 50, changes
  the position and leaves the history empty.
\<close>

theorem short_drag_pushes_nothing:
  "past (history (onNodeDragEnd double_arith (Some (node_at ''1'' 40 60))
           (onNodeDragStart (node_at ''1'' 10 20) initial_editor))) = []
   \<and> n_position (node_at ''1'' 40 60) \<noteq> n_position (node_at ''1'' 10 20)"
proof -
  have b: "n_id (node_at ''1'' 40 60) = n_id (node_at ''1'' 10 20)" by (simp add: node_at_def)
  have d: "\<not> 50 < distanceMoved double_arith (n_position (node_at ''1'' 10 20)) (n_position (node_at ''1'' 40 60))"
    using distance_50 by (simp add: node_at_def)
  show ?thesis
    using drag_end_after_start [OF b, of double_arith initial_editor] d
    by (simp add: initial_editor_def node_at_def)
qed

subsection \<open>The history\<close>

text \<open>
  C10. The history is a last-in first-out undo/redo stack. \<open>handleUndo\<close> runs the
  \<open>undo\<close> of the newest entry that is not undone and makes the entry redoable;
  \<open>handleRedo\<close> runs the \<open>redo\<close> of the entry undone last and makes it undoable again;
  pushing an entry discards the redoable ones; with nothing to undo or to redo the state
  stays as it is. After two pushes, two undos run the second entry's \<open>undo\<close> and then the
  first's, and a redo after them runs the first's \<open>redo\<close>.
\<close>

theorem history_is_lifo:
  "handleUndo (st\<lparr>history := \<lparr>past = older @ [a], future = undone\<rparr>\<rparr>)
     = st\<lparr>graph := undo a (graph st), history := \<lparr>past = older, future = undone @ [a]\<rparr>\<rparr>
   \<and> handleRedo (st\<lparr>history := \<lparr>past = applied, future = undone @ [a]\<rparr>\<rparr>)
     = st\<lparr>graph := redo a (graph st), history := \<lparr>past = applied @ [a], future = undone\<rparr>\<rparr>
   \<and> push b \<lparr>past = applied, future = undone\<rparr> = \<lparr>past = applied @ [b], future = []\<rparr>
   \<and> handleUndo (st\<lparr>history := \<lparr>past = [], future = undone\<rparr>\<rparr>)
     = st\<lparr>history := \<lparr>past = [], future = undone\<rparr>\<rparr>
   \<and> handleRedo (st\<lparr>history := \<lparr>past = applied, future = []\<rparr>\<rparr>)
     = st\<lparr>history := \<lparr>past = applied, future = []\<rparr>\<rparr>
   \<and> handleUndo (handleUndo (st\<lparr>history := push b (push a h)\<rparr>))
     = st\<lparr>graph := undo a (undo b (graph st)), history := \<lparr>past = past h, future = [b, a]\<rparr>\<rparr>
   \<and> handleRedo (handleUndo (handleUndo (st\<lparr>history := push b (push a h)\<rparr>)))
     = st\<lparr>graph := redo a (undo a (undo b (graph st))),
          history := \<lparr>past = past h @ [a], future = [b]\<rparr>\<rparr>"
  by (simp add: handleUndo_def handleRedo_def history_undo_def history_redo_def push_def)

lemma entries_undo: "entries (fst (history_undo h g)) = entries h"
  by (cases "rev (past h)") (auto simp add: history_undo_def entries_def)

lemma entries_redo: "entries (fst (history_redo h g)) = entries h"
  by (cases "rev (future h)") (auto simp add: history_redo_def entries_def)

lemma handleUndo_entries: "entries (history (handleUndo st)) = entries (history st)"
  using entries_undo [of "history st" "graph st"]
  by (auto simp add: handleUndo_def split: prod.splits)

lemma handleRedo_entries: "entries (history (handleRedo st)) = entries (history st)"
  using entries_redo [of "history st" "graph st"]
  by (auto simp add: handleRedo_def split: prod.splits)

lemma handleKeyDown_history: "history (handleKeyDown ae now k st) = history st"
  by (simp add: handleKeyDown_def Let_def)

lemma undoRedo_keys_entries:
  "entries (history (handleKeyDown_undoRedo m k st)) = entries (history st)"
  by (simp add: handleKeyDown_undoRedo_def Let_def handleUndo_entries handleRedo_entries)

lemma onNodeDragEnd_history:
  "history (onNodeDragEnd ar arg st) = history st
   \<or> (\<exists>a. history (onNodeDragEnd ar arg st) = push a (history st) \<and> a_type a = ''UPDATE_NODE_POSITION'')"
  by (auto simp add: onNodeDragEnd_def Let_def split: option.splits)

lemma addNode_history:
  "history (addNode av vp b t st) = history st
   \<or> (\<exists>a. history (addNode av vp b t st) = push a (history st) \<and> a_type a = ''ADD_NODE'')"
  by (auto simp add: addNode_def Let_def split: option.splits)

lemma onConnect_history:
  "onConnect gt gc c st = Some st' \<Longrightarrow> \<exists>a. history st' = push a (history st) \<and> a_type a = ''ADD_EDGE''"
  by (auto simp add: onConnect_def Let_def split: option.splits)

text \<open>
  C6. Whatever the component reacts to, the history afterwards is the history before, or
  (for an undo or redo) holds the same entries, or is the history before with one entry
  pushed: of type \<open>ADD_EDGE\<close> by a connection, \<open>ADD_NODE\<close> by adding a block,
  \<open>UPDATE_NODE_POSITION\<close> by the end of a drag. Node changes and edge changes (deletions
  among them), the deletion callback that clears the status, and a paste leave the history
  as it is.
\<close>

theorem pushes_only_three_types:
  assumes "dispatch en ev st = Some st'"
  shows "(history st' = history st
          \<or> ((ev = UndoClick \<or> ev = RedoClick \<or> (\<exists>k ae now. ev = KeyDown k ae now))
               \<and> entries (history st') = entries (history st))
          \<or> (\<exists>a. history st' = push a (history st)
               \<and> ((\<exists>c. ev = Connect c) \<and> a_type a = ''ADD_EDGE''
                  \<or> (\<exists>b t. ev = AddBlock b t) \<and> a_type a = ''ADD_NODE''
                  \<or> (\<exists>n. ev = NodeDragStop n) \<and> a_type a = ''UPDATE_NODE_POSITION'')))
       \<and> (\<forall>changes s. \<exists>s'. dispatch en (NodesChange changes) s = Some s' \<and> history s' = history s)
       \<and> (\<forall>changes s. \<exists>s'. dispatch en (EdgesChange changes) s = Some s' \<and> history s' = history s)
       \<and> (\<forall>s. \<exists>s'. dispatch en NodesDelete s = Some s' \<and> history s' = history s)
       \<and> (\<forall>ae now k s. history (handleKeyDown ae now k s) = history s)
       \<and> (\<forall>ae now k s. key k = ''v'' \<or> key k = ''V'' \<longrightarrow>
             (\<exists>s'. dispatch en (KeyDown k ae now) s = Some s' \<and> history s' = history s))"
proof -
  have main: "history st' = history st
          \<or> ((ev = UndoClick \<or> ev = RedoClick \<or> (\<exists>k ae now. ev = KeyDown k ae now))
               \<and> entries (history st') = entries (history st))
          \<or> (\<exists>a. history st' = push a (history st)
               \<and> ((\<exists>c. ev = Connect c) \<and> a_type a = ''ADD_EDGE''
                  \<or> (\<exists>b t. ev = AddBlock b t) \<and> a_type a = ''ADD_NODE''
                  \<or> (\<exists>n. ev = NodeDragStop n) \<and> a_type a = ''UPDATE_NODE_POSITION''))"
  proof (cases ev)
    case (NodeDragStart n)
    then show ?thesis using assms by (auto simp add: onNodeDragStart_def)
  next
    case (NodeDragStop n)
    then show ?thesis using assms onNodeDragEnd_history [of _ n st] by auto
  next
    case (NodesChange cs)
    then show ?thesis using assms by auto
  next
    case (EdgesChange cs)
    then show ?thesis using assms by auto
  next
    case NodesDelete
    then show ?thesis using assms by auto
  next
    case (Connect c)
    then show ?thesis using assms onConnect_history [of _ _ c st st'] by auto
  next
    case (AddBlock b t)
    then show ?thesis using assms addNode_history [of _ _ b t st] by auto
  next
    case (KeyDown k ae now)
    then show ?thesis using assms
      by (auto simp add: handleKeyDown_history undoRedo_keys_entries)
  next
    case UndoClick
    then show ?thesis using assms by (auto simp add: handleUndo_entries)
  next
    case RedoClick
    then show ?thesis using assms by (auto simp add: handleRedo_entries)
  qed
  have paste: "history (handleKeyDown ae now k (handleKeyDown_undoRedo m k s)) = history s"
    if "key k = ''v'' \<or> key k = ''V''" for ae now k m s
    using that by (auto simp add: handleKeyDown_history handleKeyDown_undoRedo_def)
  show ?thesis
    using main paste by (simp add: handleKeyDown_history)
qed

theorem pushes_only_three_types_witness:
  "dispatch env0 (Connect conn12) two_nodes = Some connected
   \<and> (history connected = history two_nodes
      \<or> (\<exists>a. history connected = push a (history two_nodes) \<and> a_type a = ''ADD_EDGE''))"
proof -
  have h: "dispatch env0 (Connect conn12) two_nodes = Some connected"
    using onConnect_two_nodes by (simp add: env0_def)
  show ?thesis
    using h pushes_only_three_types [OF h] by auto
qed

subsection \<open>Remove changes\<close>


lemma added_edges_removes [simp]: "added_edges (map EdgeRemove ids) = []"
  by (induction ids) auto

lemma removed_edge_ids_removes [simp]: "removed_edge_ids (map EdgeRemove ids) = ids"
  by (induction ids) auto

lemma replace_edges_removes [simp]: "replace_edges (map EdgeRemove ids) = []"
  by (induction ids) auto





lemma deleteElements_edges_closure [simp]:
  "closure_edges (deleteElements_edges ids g) = closure_edges g"
  by (simp add: deleteElements_edges_def onEdgesChange_def Let_def clearNodesStatusAndOutput_def)


lemma removed_node_ids_removes [simp]: "removed_node_ids (map NodeRemove ids) = ids"
  by (induction ids) auto

lemma added_nodes_removes [simp]: "added_nodes (map NodeRemove ids) = []"
  by (induction ids) auto








subsection \<open>Removing nodes\<close>




lemma ids_onEdgesChange [simp]: "map n_id (nodes (onEdgesChange cs g)) = map n_id (nodes g)"
  by (simp add: onEdgesChange_def Let_def clearNodesStatusAndOutput_def comp_def)

lemma ids_deleteElements_edges [simp]:
  "map n_id (nodes (deleteElements_edges ids g)) = map n_id (nodes g)"
  by (simp add: deleteElements_edges_def Let_def)



lemma ids_clear [simp]: "map n_id (nodes (clearNodesStatusAndOutput g)) = map n_id (nodes g)"
  by (simp add: clearNodesStatusAndOutput_def comp_def)

lemma removed_node_ids_removes' [simp]:
  "removed_node_ids (map (\<lambda>x. NodeRemove (f x)) xs) = map f xs"
  by (induction xs) auto






text \<open>
  Taken alone, \<open>onNodesChange\<close> looks for the edges of a removed node among the edges its
  closure holds, and the closure is not rebuilt when the edges change: given a remove
  change for node 1 and nothing else, with a closure built on the empty graph, it removes
  the node and keeps the edge from node 1 to node 2.
\<close>

lemma onNodesChange_keeps_edge_of_removed_node:
  "onNodesChange [NodeRemove ''1''] stale_graph
   = \<lparr>nodes = [node_at ''2'' 100 0], edges = [edge12], closure_edges = []\<rparr>
   \<and> e_source edge12 = ''1''"
  by (simp add: stale_graph_def onNodesChange_def applyNodeChanges_def deleteElements_edges_def
      node_at_def edge12_def)

text \<open>The two calls the component makes are cases of the general one.\<close>

lemma deleteElements_nodes_only: "deleteElements ids [] g = deleteElements_nodes ids g"
  by (simp add: deleteElements_def deleteElements_nodes_def)

lemma deleteElements_edges_only: "deleteElements [] ids g = deleteElements_edges ids g"
  by (simp add: deleteElements_def deleteElements_edges_def)




subsection \<open>Undoing and redoing an added node\<close>



subsection \<open>Undoing and redoing an added edge\<close>







subsection \<open>Undoing and redoing a move\<close>


lemma removed_node_ids_replaces [simp]:
  "removed_node_ids (map (\<lambda>n. NodeReplace (h n) (f n)) ms) = []"
  by (induction ms) auto

lemma added_nodes_replaces [simp]:
  "added_nodes (map (\<lambda>n. NodeReplace (h n) (f n)) ms) = []"
  by (induction ms) auto




subsection \<open>Every pushed entry\<close>





subsection \<open>The pasted nodes and edges\<close>

lemma oldToNewNodeIDMap_snoc:
  "oldToNewNodeIDMap c (xs @ [x]) = (oldToNewNodeIDMap c xs)(n_id x \<mapsto> toString (c + length xs))"
  by (simp add: oldToNewNodeIDMap_def)

lemma oldToNewNodeIDMap_other:
  "k \<notin> set (map n_id xs) \<Longrightarrow> oldToNewNodeIDMap c xs k = None"
proof (induction xs rule: rev_induct)
  case Nil
  then show ?case by (simp add: oldToNewNodeIDMap_def)
next
  case (snoc x xs)
  then show ?case by (simp add: oldToNewNodeIDMap_snoc)
qed

lemma oldToNewNodeIDMap_nth:
  "distinct (map n_id xs) \<Longrightarrow> i < length xs \<Longrightarrow>
     oldToNewNodeIDMap c xs (n_id (xs ! i)) = Some (toString (c + i))"
proof (induction xs rule: rev_induct)
  case Nil
  then show ?case by simp
next
  case (snoc x xs)
  show ?case
  proof (cases "i < length xs")
    case True
    have "xs ! i \<in> set xs" using True by simp
    then have "n_id (xs ! i) \<in> n_id ` set xs" by (rule imageI)
    moreover have "n_id x \<notin> n_id ` set xs" using snoc.prems by simp
    ultimately have "n_id (xs ! i) \<noteq> n_id x" by metis
    then show ?thesis using True snoc by (simp add: oldToNewNodeIDMap_snoc nth_append)
  next
    case False
    then have "i = length xs" using snoc.prems by simp
    then show ?thesis by (simp add: oldToNewNodeIDMap_snoc)
  qed
qed

lemma length_pastedNodes [simp]: "length (pastedNodes c xs) = length xs"
  by (simp add: pastedNodes_def)

lemma pastedNodes_nth:
  "i < length xs \<Longrightarrow> pastedNodes c xs ! i =
     (xs ! i)\<lparr>n_id := toString (c + i),
              n_position := \<lparr>pos_x = pos_x (n_position (xs ! i)) + 20, pos_y = pos_y (n_position (xs ! i)) + 20\<rparr>,
              n_data := (n_data (xs ! i))\<lparr>status := None, output_data := None\<rparr>\<rparr>"
  by (simp add: pastedNodes_def)

lemma pastedNodes_ids: "map n_id (pastedNodes c xs) = map (\<lambda>i. toString (c + i)) [0..<length xs]"
  by (rule nth_equalityI) (simp_all add: pastedNodes_nth)

lemma pastedNodes_distinct: "distinct (map n_id (pastedNodes c xs))"
  unfolding pastedNodes_ids
  by (rule distinct_map [THEN iffD2]) (auto intro!: inj_onI dest: toString_inj)

lemma pastedNodes_fresh: "k < c \<Longrightarrow> toString k \<notin> set (map n_id (pastedNodes c xs))"
  unfolding pastedNodes_ids by (auto dest: toString_inj)

lemma length_pastedEdges [simp]: "length (pastedEdges now m es) = length es"
  by (simp add: pastedEdges_def)

lemma pastedEdges_nth:
  "j < length es \<Longrightarrow> pastedEdges now m es ! j =
     (es ! j)\<lparr>e_id := (case m (e_source (es ! j)) of Some i \<Rightarrow> i | None \<Rightarrow> e_source (es ! j)) @ ''_''
                 @ tmpl (e_sourceHandle (es ! j)) @ ''_''
                 @ (case m (e_target (es ! j)) of Some i \<Rightarrow> i | None \<Rightarrow> e_target (es ! j)) @ ''_''
                 @ tmpl (e_targetHandle (es ! j)) @ ''_'' @ toString (now j),
              e_source := (case m (e_source (es ! j)) of Some i \<Rightarrow> i | None \<Rightarrow> e_source (es ! j)),
              e_target := (case m (e_target (es ! j)) of Some i \<Rightarrow> i | None \<Rightarrow> e_target (es ! j))\<rparr>"
  by (simp add: pastedEdges_def Let_def)

subsection \<open>Copying and pasting\<close>

lemma handleKeyDown_copy:
  assumes "\<not> isAnyModalOpen st" and "\<not> isInputField ae" and "ctrlKey k \<or> metaKey k"
    and "key k = ''c'' \<or> key k = ''C''"
  shows "handleKeyDown ae now k st =
           st\<lparr>copiedNodes := filter n_selected (nodes (graph st)),
              copiedEdges := filter e_selected (edges (graph st))\<rparr>"
  using assms by (auto simp add: handleKeyDown_def Let_def)

lemma handleKeyDown_paste:
  assumes "\<not> isAnyModalOpen st" and "\<not> isInputField ae" and "ctrlKey k \<or> metaKey k"
    and "key k = ''v'' \<or> key k = ''V''" and "copiedNodes st \<noteq> []"
  shows "handleKeyDown ae now k st =
     st\<lparr>graph := (graph st)
           \<lparr>nodes := map (add_connections
                         (pastedEdges now (oldToNewNodeIDMap (nodeId st) (copiedNodes st)) (copiedEdges st)))
                      (map (\<lambda>node. node\<lparr>n_selected := False\<rparr>) (nodes (graph st))
                         @ pastedNodes (nodeId st) (copiedNodes st)),
            edges := edges (graph st)
                       @ pastedEdges now (oldToNewNodeIDMap (nodeId st) (copiedNodes st)) (copiedEdges st)\<rparr>,
        nodeId := nodeId st + length (copiedNodes st)\<rparr>"
  using assms by (auto simp add: handleKeyDown_def Let_def addNodes_eq addEdges_eq)

lemma selected_eq:
  "selected = connected\<lparr>graph := \<lparr>nodes = [node1\<lparr>n_selected := True\<rparr>, node2],
                                 edges = [edge_1_2\<lparr>e_selected := True\<rparr>], closure_edges = []\<rparr>\<rparr>"
  by (simp add: selected_def connected_graph onNodesChange_def applyNodeChanges_def
      onEdgesChange_def applyEdgeChanges_def id_node1 id_node2 id_edge_1_2 Let_def)

lemma copied_eq:
  "copied = selected\<lparr>copiedNodes := [node1\<lparr>n_selected := True\<rparr>],
                     copiedEdges := [edge_1_2\<lparr>e_selected := True\<rparr>]\<rparr>"
proof -
  have n2: "\<not> n_selected node2"
    by (simp add: node2_def newNode_def clear_node_def add_connections_def)
  have u: "handleKeyDown_undoRedo False ctrl_c selected = selected"
    by (simp add: handleKeyDown_undoRedo_def ctrl_c_def)
  have m: "\<not> isAnyModalOpen selected" by (simp add: selected_eq connected_rest)
  have i: "\<not> isInputField None" by (simp add: isInputField_def)
  have c: "ctrlKey ctrl_c \<or> metaKey ctrl_c" by (simp add: ctrl_c_def)
  have k: "key ctrl_c = ''c'' \<or> key ctrl_c = ''C''" by (simp add: ctrl_c_def)
  show ?thesis
    unfolding copied_def
    using handleKeyDown_copy [OF m i c k, of now0] n2
    by (simp add: env0_def u) (simp add: selected_eq)
qed

lemma copied_facts:
  "\<not> isAnyModalOpen copied \<and> nodeId copied = 3
   \<and> copiedNodes copied = [node1\<lparr>n_selected := True\<rparr>]
   \<and> copiedEdges copied = [edge_1_2\<lparr>e_selected := True\<rparr>]
   \<and> nodes (graph copied) = [node1\<lparr>n_selected := True\<rparr>, node2]
   \<and> edges (graph copied) = [edge_1_2\<lparr>e_selected := True\<rparr>]"
  by (simp add: copied_eq selected_eq connected_rest)

lemma pasted_eq:
  "pasted = handleKeyDown None now0 ctrl_v copied"
proof -
  have "handleKeyDown_undoRedo False ctrl_v copied = copied"
    by (simp add: handleKeyDown_undoRedo_def ctrl_v_def)
  then show ?thesis by (simp add: pasted_def env0_def)
qed

lemma pasted_edge:
  "pastedEdges now0 (oldToNewNodeIDMap 3 [node1\<lparr>n_selected := True\<rparr>]) [edge_1_2\<lparr>e_selected := True\<rparr>]
     = [edge_1_2\<lparr>e_selected := True, e_id := ''3_sum_2_a_1000'', e_source := ''3''\<rparr>]"
  by (simp add: pastedEdges_def oldToNewNodeIDMap_def id_node1 toString_3 toString_1000 now0_def
      edge_1_2_def newEdge_def conn12_def tmpl_def formatEdgeID_def)

text \<open>
  C7, as the code has it. With no modal open, the focus not on an input field and Ctrl or
  Cmd held: the key c stores exactly the selected nodes and the selected edges. The key v,
  with a stored node, adds one node per stored node: the stored node with the id
  \<open>nodeId + index\<close> rendered as a string (the new ids differ from each other and from
  every id the counter gave out before), the position moved by (20, 20), status and output
  cleared; it advances the counter past the new ids; and it adds one edge per stored edge,
  handles kept, an endpoint that is a stored node replaced by the id of that node's copy
  and any other endpoint kept (stored nodes having distinct ids). The nodes that were there
  are deselected, and each node, old or new, gets the connection entries of the pasted
  edges appended to its data; nothing else of them changes.
\<close>

theorem copy_and_paste:
  assumes "\<not> isAnyModalOpen st" and "\<not> isInputField ae" and "ctrlKey k \<or> metaKey k"
  shows "(key k = ''c'' \<or> key k = ''C'' \<longrightarrow>
            handleKeyDown ae now k st =
              st\<lparr>copiedNodes := filter n_selected (nodes (graph st)),
                 copiedEdges := filter e_selected (edges (graph st))\<rparr>)
       \<and> ((key k = ''v'' \<or> key k = ''V'') \<and> copiedNodes st \<noteq> [] \<longrightarrow>
            (\<exists>pn pe.
               nodes (graph (handleKeyDown ae now k st))
                 = map (add_connections pe) (map (\<lambda>node. node\<lparr>n_selected := False\<rparr>) (nodes (graph st)) @ pn)
             \<and> edges (graph (handleKeyDown ae now k st)) = edges (graph st) @ pe
             \<and> nodeId (handleKeyDown ae now k st) = nodeId st + length (copiedNodes st)
             \<and> length pn = length (copiedNodes st)
             \<and> (\<forall>i < length (copiedNodes st).
                   pn ! i = (copiedNodes st ! i)
                     \<lparr>n_id := toString (nodeId st + i),
                      n_position := \<lparr>pos_x = pos_x (n_position (copiedNodes st ! i)) + 20,
                                     pos_y = pos_y (n_position (copiedNodes st ! i)) + 20\<rparr>,
                      n_data := (n_data (copiedNodes st ! i))\<lparr>status := None, output_data := None\<rparr>\<rparr>)
             \<and> distinct (map n_id pn)
             \<and> (\<forall>c < nodeId st. toString c \<notin> set (map n_id pn))
             \<and> length pe = length (copiedEdges st)
             \<and> (distinct (map n_id (copiedNodes st)) \<longrightarrow>
                  (\<forall>j < length (copiedEdges st).
                      (\<forall>i < length (copiedNodes st).
                          (e_source (copiedEdges st ! j) = n_id (copiedNodes st ! i)
                             \<longrightarrow> e_source (pe ! j) = n_id (pn ! i))
                        \<and> (e_target (copiedEdges st ! j) = n_id (copiedNodes st ! i)
                             \<longrightarrow> e_target (pe ! j) = n_id (pn ! i)))
                    \<and> (e_source (copiedEdges st ! j) \<notin> set (map n_id (copiedNodes st))
                          \<longrightarrow> e_source (pe ! j) = e_source (copiedEdges st ! j))
                    \<and> (e_target (copiedEdges st ! j) \<notin> set (map n_id (copiedNodes st))
                          \<longrightarrow> e_target (pe ! j) = e_target (copiedEdges st ! j))
                    \<and> e_sourceHandle (pe ! j) = e_sourceHandle (copiedEdges st ! j)
                    \<and> e_targetHandle (pe ! j) = e_targetHandle (copiedEdges st ! j)))))"
proof (intro conjI impI)
  assume "key k = ''c'' \<or> key k = ''C''"
  then show "handleKeyDown ae now k st =
              st\<lparr>copiedNodes := filter n_selected (nodes (graph st)),
                 copiedEdges := filter e_selected (edges (graph st))\<rparr>"
    using assms by (rule handleKeyDown_copy [rotated 3])
next
  assume v: "(key k = ''v'' \<or> key k = ''V'') \<and> copiedNodes st \<noteq> []"
  let ?cn = "copiedNodes st" and ?ce = "copiedEdges st"
  let ?m = "oldToNewNodeIDMap (nodeId st) ?cn"
  let ?pn = "pastedNodes (nodeId st) ?cn"
  let ?pe = "pastedEdges now ?m ?ce"
  have eq: "handleKeyDown ae now k st =
     st\<lparr>graph := (graph st)
           \<lparr>nodes := map (add_connections ?pe)
                      (map (\<lambda>node. node\<lparr>n_selected := False\<rparr>) (nodes (graph st)) @ ?pn),
            edges := edges (graph st) @ ?pe\<rparr>,
        nodeId := nodeId st + length ?cn\<rparr>"
    using handleKeyDown_paste [OF assms, of now] v by simp
  have nth_pn: "\<forall>i < length ?cn.
                   ?pn ! i = (?cn ! i)
                     \<lparr>n_id := toString (nodeId st + i),
                      n_position := \<lparr>pos_x = pos_x (n_position (?cn ! i)) + 20,
                                     pos_y = pos_y (n_position (?cn ! i)) + 20\<rparr>,
                      n_data := (n_data (?cn ! i))\<lparr>status := None, output_data := None\<rparr>\<rparr>"
    by (simp add: pastedNodes_nth)
  have fresh: "\<forall>c < nodeId st. toString c \<notin> set (map n_id ?pn)"
    using pastedNodes_fresh by blast
  have remap: "\<forall>j < length ?ce.
                      (\<forall>i < length ?cn.
                          (e_source (?ce ! j) = n_id (?cn ! i) \<longrightarrow> e_source (?pe ! j) = n_id (?pn ! i))
                        \<and> (e_target (?ce ! j) = n_id (?cn ! i) \<longrightarrow> e_target (?pe ! j) = n_id (?pn ! i)))
                    \<and> (e_source (?ce ! j) \<notin> set (map n_id ?cn) \<longrightarrow> e_source (?pe ! j) = e_source (?ce ! j))
                    \<and> (e_target (?ce ! j) \<notin> set (map n_id ?cn) \<longrightarrow> e_target (?pe ! j) = e_target (?ce ! j))
                    \<and> e_sourceHandle (?pe ! j) = e_sourceHandle (?ce ! j)
                    \<and> e_targetHandle (?pe ! j) = e_targetHandle (?ce ! j)"
    if d: "distinct (map n_id ?cn)"
    using oldToNewNodeIDMap_nth [OF d, of _ "nodeId st"] oldToNewNodeIDMap_other [of _ ?cn "nodeId st"]
    by (simp add: pastedEdges_nth pastedNodes_nth)
  show "\<exists>pn pe.
               nodes (graph (handleKeyDown ae now k st))
                 = map (add_connections pe) (map (\<lambda>node. node\<lparr>n_selected := False\<rparr>) (nodes (graph st)) @ pn)
             \<and> edges (graph (handleKeyDown ae now k st)) = edges (graph st) @ pe
             \<and> nodeId (handleKeyDown ae now k st) = nodeId st + length (copiedNodes st)
             \<and> length pn = length (copiedNodes st)
             \<and> (\<forall>i < length (copiedNodes st).
                   pn ! i = (copiedNodes st ! i)
                     \<lparr>n_id := toString (nodeId st + i),
                      n_position := \<lparr>pos_x = pos_x (n_position (copiedNodes st ! i)) + 20,
                                     pos_y = pos_y (n_position (copiedNodes st ! i)) + 20\<rparr>,
                      n_data := (n_data (copiedNodes st ! i))\<lparr>status := None, output_data := None\<rparr>\<rparr>)
             \<and> distinct (map n_id pn)
             \<and> (\<forall>c < nodeId st. toString c \<notin> set (map n_id pn))
             \<and> length pe = length (copiedEdges st)
             \<and> (distinct (map n_id (copiedNodes st)) \<longrightarrow>
                  (\<forall>j < length (copiedEdges st).
                      (\<forall>i < length (copiedNodes st).
                          (e_source (copiedEdges st ! j) = n_id (copiedNodes st ! i)
                             \<longrightarrow> e_source (pe ! j) = n_id (pn ! i))
                        \<and> (e_target (copiedEdges st ! j) = n_id (copiedNodes st ! i)
                             \<longrightarrow> e_target (pe ! j) = n_id (pn ! i)))
                    \<and> (e_source (copiedEdges st ! j) \<notin> set (map n_id (copiedNodes st))
                          \<longrightarrow> e_source (pe ! j) = e_source (copiedEdges st ! j))
                    \<and> (e_target (copiedEdges st ! j) \<notin> set (map n_id (copiedNodes st))
                          \<longrightarrow> e_target (pe ! j) = e_target (copiedEdges st ! j))
                    \<and> e_sourceHandle (pe ! j) = e_sourceHandle (copiedEdges st ! j)
                    \<and> e_targetHandle (pe ! j) = e_targetHandle (copiedEdges st ! j)))"
    apply (rule exI [of _ ?pn])
    apply (rule exI [of _ ?pe])
    apply (intro conjI)
            apply (simp add: eq)
           apply (simp add: eq)
          apply (simp add: eq)
         apply simp
        apply (rule nth_pn)
       apply (rule pastedNodes_distinct)
      apply (rule fresh)
     apply simp
    apply (rule impI)
    apply (erule remap)
    done
qed

theorem copy_and_paste_witness:
  "\<not> isAnyModalOpen copied \<and> \<not> isInputField None \<and> ctrlKey ctrl_v
   \<and> key ctrl_v = ''v'' \<and> copiedNodes copied \<noteq> []
   \<and> (\<exists>pn pe. nodes (graph pasted)
                  = map (add_connections pe) (map (\<lambda>node. node\<lparr>n_selected := False\<rparr>) (nodes (graph copied)) @ pn)
              \<and> edges (graph pasted) = edges (graph copied) @ pe
              \<and> nodeId pasted = 4 \<and> length pn = 1 \<and> length pe = 1
              \<and> n_id (pn ! 0) = ''3'')"
proof -
  have m: "\<not> isAnyModalOpen copied" using copied_facts by simp
  have i: "\<not> isInputField None" by (simp add: isInputField_def)
  have c: "ctrlKey ctrl_v \<or> metaKey ctrl_v" by (simp add: ctrl_v_def)
  have k: "key ctrl_v = ''v'' \<or> key ctrl_v = ''V''" by (simp add: ctrl_v_def)
  have n: "copiedNodes copied \<noteq> []" using copied_facts by simp
  obtain pn pe where p:
    "nodes (graph pasted) = map (add_connections pe) (map (\<lambda>node. node\<lparr>n_selected := False\<rparr>) (nodes (graph copied)) @ pn)"
    "edges (graph pasted) = edges (graph copied) @ pe"
    "nodeId pasted = nodeId copied + length (copiedNodes copied)"
    "length pn = length (copiedNodes copied)"
    "length pe = length (copiedEdges copied)"
    "\<forall>i < length (copiedNodes copied).
        pn ! i = (copiedNodes copied ! i)
                     \<lparr>n_id := toString (nodeId copied + i),
                      n_position := \<lparr>pos_x = pos_x (n_position (copiedNodes copied ! i)) + 20,
                                     pos_y = pos_y (n_position (copiedNodes copied ! i)) + 20\<rparr>,
                      n_data := (n_data (copiedNodes copied ! i))\<lparr>status := None, output_data := None\<rparr>\<rparr>"
    using copy_and_paste [OF m i c, of now0] k n unfolding pasted_eq [symmetric] by blast
  have "n_id (pn ! 0) = ''3''" using p(6) copied_facts by (simp add: toString_3)
  then show ?thesis
    using m i n p(1-5) copied_facts by (auto simp add: ctrl_v_def)
qed

text \<open>
  C7 as stated fails in its last clause. Node 2 is not selected and is connected to node 1
  by one edge; after node 1 and that edge are copied and pasted, the data of node 2 lists a
  second connection, the pasted edge.
\<close>

theorem paste_changes_other_nodes:
  "n_id (nodes (graph copied) ! 1) = ''2''
   \<and> n_selected (nodes (graph copied) ! 1) = False
   \<and> map nc_edge_id (connections (n_data (nodes (graph copied) ! 1))) = [''1_sum_2_a'']
   \<and> dispatch env0 (KeyDown ctrl_v None now0) copied = Some pasted
   \<and> n_id (nodes (graph pasted) ! 1) = ''2''
   \<and> map nc_edge_id (connections (n_data (nodes (graph pasted) ! 1))) = [''1_sum_2_a'', ''3_sum_2_a_1000'']"
proof -
  have m: "\<not> isAnyModalOpen copied" using copied_facts by simp
  have i: "\<not> isInputField None" by (simp add: isInputField_def)
  have c: "ctrlKey ctrl_v \<or> metaKey ctrl_v" by (simp add: ctrl_v_def)
  have k: "key ctrl_v = ''v'' \<or> key ctrl_v = ''V''" by (simp add: ctrl_v_def)
  have n: "copiedNodes copied \<noteq> []" using copied_facts by simp
  have n2: "map nc_edge_id (connections (n_data node2)) = [''1_sum_2_a''] \<and> n_selected node2 = False"
    by (simp add: node2_def newNode_def clear_node_def add_connections_def connection_of_def id_edge_1_2)
  have d: "dispatch env0 (KeyDown ctrl_v None now0) copied = Some pasted"
    by (simp add: pasted_def)
  show ?thesis
    using n2 d
    by (simp add: pasted_eq handleKeyDown_paste [OF m i c k n] copied_facts pasted_edge id_node2
        add_connections_def connection_of_def)
qed

end
